theory Spec2Isabelle
  imports Main
begin

section \<open>Python strings\<close>

text \<open>
  The downloader is one Python class, \<open>USPTOFileWrapperDownloader\<close>; its worker method
  \<open>run_process\<close> and the helpers \<open>verify_pdf\<close>, \<open>get_redirect_url\<close> and
  \<open>download_final\<close> are embedded here. A byte string is a list of bytes, and a
  string is a list of characters with code points below 256. Among these,
  \<open>str.isspace\<close> and the class \<open>\s\<close> of \<open>re\<close> hold for tab, line feed, vertical
  tab, form feed, carriage return, the four separators 0x1C to 0x1F, the space, the
  next-line character 0x85 and the no-break space 0xA0.
\<close>

definition py_isspace :: "char \<Rightarrow> bool" where
  "py_isspace c =
     (c \<in> set [CHR 0x09, CHR 0x0A, CHR 0x0B, CHR 0x0C, CHR 0x0D,
                CHR 0x1C, CHR 0x1D, CHR 0x1E, CHR 0x1F, CHR 0x20, CHR 0x85, CHR 0xA0])"

text \<open>\<open>s.strip()\<close>: whitespace removed at both ends.\<close>

definition py_strip :: "string \<Rightarrow> string" where
  "py_strip s = rev (dropWhile py_isspace (rev (dropWhile py_isspace s)))"

text \<open>
  \<open>s.split()\<close> with no separator: the maximal runs of characters that are not
  whitespace, in order. The first argument is the token read so far.
\<close>

fun split_from :: "string \<Rightarrow> string \<Rightarrow> string list" where
  "split_from tok [] = (if tok = [] then [] else [tok])"
| "split_from tok (c # cs) =
     (if py_isspace c
      then (if tok = [] then split_from [] cs else tok # split_from [] cs)
      else split_from (tok @ [c]) cs)"

definition py_split :: "string \<Rightarrow> string list" where
  "py_split s = split_from [] s"

text \<open>\<open>s.replace(old, new)\<close> for a one-character \<open>old\<close>.\<close>

definition py_replace :: "char \<Rightarrow> string \<Rightarrow> string \<Rightarrow> string" where
  "py_replace old new s = concat (map (\<lambda>c. if c = old then new else [c]) s)"

text \<open>
  \<open>s.upper()\<close> on the letters a to z. No other character has P, D or F as its upper
  case, so the comparison of an upper-cased string with \<open>'PDF'\<close>, the only use the
  code makes of it, is the same for every string.
\<close>

definition upper_char :: "char \<Rightarrow> char" where
  "upper_char c =
     (case map_of (zip ''abcdefghijklmnopqrstuvwxyz'' ''ABCDEFGHIJKLMNOPQRSTUVWXYZ'') c of
        Some u \<Rightarrow> u
      | None \<Rightarrow> c)"

definition py_upper :: "string \<Rightarrow> string" where
  "py_upper s = map upper_char s"

text \<open>\<open>s.split('T')[0]\<close>: the text before the first occurrence of the separator.\<close>

definition split_first :: "char \<Rightarrow> string \<Rightarrow> string" where
  "split_first sep s = takeWhile (\<lambda>c. c \<noteq> sep) s"

subsection \<open>The list of application numbers\<close>

text \<open>
  Line 224 of \<open>run_process\<close>:
  \<^verbatim>\<open>[x.replace('/','').replace(',','')
      for x in raw_list.replace('\n',' ').replace(',',' ').split() if x.strip()]\<close>
\<close>

definition app_numbers :: "string \<Rightarrow> string list" where
  "app_numbers raw_list =
     map (\<lambda>x. py_replace (CHR '','') [] (py_replace (CHR ''/'') [] x))
       (filter (\<lambda>x. py_strip x \<noteq> [])
         (py_split (py_replace (CHR '','') '' '' (py_replace (CHR 0x0A) '' '' raw_list))))"

section \<open>The file system\<close>

text \<open>
  A path names a regular file with its bytes, a directory, or nothing. The operating
  system may refuse an operation on a path (permissions, a device error): the three
  sets list the paths where \<open>open\<close>, \<open>os.remove\<close> and \<open>os.makedirs\<close> raise for
  such a reason. \<open>dir_bytes\<close> is the size \<open>os.path.getsize\<close> reports for a directory.
\<close>

type_synonym path = string

datatype node = File (file_bytes: string) | Dir

record filesystem =
  nodes :: "path \<rightharpoonup> node"
  unreadable :: "path set"
  undeletable :: "path set"
  uncreatable :: "path set"
  dir_bytes :: nat

datatype exn = AttributeError | TypeError | OSError

definition os_path_exists :: "filesystem \<Rightarrow> path \<Rightarrow> bool" where
  "os_path_exists fs p = (nodes fs p \<noteq> None)"

definition os_path_getsize :: "filesystem \<Rightarrow> path \<Rightarrow> exn + nat" where
  "os_path_getsize fs p =
     (case nodes fs p of
        None \<Rightarrow> Inl OSError
      | Some (File c) \<Rightarrow> Inr (length c)
      | Some Dir \<Rightarrow> Inr (dir_bytes fs))"

text \<open>\<open>open(p, 'rb')\<close> followed by \<open>f.read(n)\<close>.\<close>

definition open_read :: "filesystem \<Rightarrow> path \<Rightarrow> nat \<Rightarrow> exn + string" where
  "open_read fs p n =
     (case nodes fs p of
        None \<Rightarrow> Inl OSError
      | Some Dir \<Rightarrow> Inl OSError
      | Some (File c) \<Rightarrow> if p \<in> unreadable fs then Inl OSError else Inr (take n c))"

definition os_remove :: "filesystem \<Rightarrow> path \<Rightarrow> exn + filesystem" where
  "os_remove fs p =
     (case nodes fs p of
        None \<Rightarrow> Inl OSError
      | Some Dir \<Rightarrow> Inl OSError
      | Some (File c) \<Rightarrow>
          if p \<in> undeletable fs then Inl OSError
          else Inr (fs\<lparr>nodes := (nodes fs)(p := None)\<rparr>))"

definition os_makedirs :: "filesystem \<Rightarrow> path \<Rightarrow> exn + filesystem" where
  "os_makedirs fs p =
     (if nodes fs p \<noteq> None \<or> p \<in> uncreatable fs then Inl OSError
      else Inr (fs\<lparr>nodes := (nodes fs)(p \<mapsto> Dir)\<rparr>))"

text \<open>\<open>os.path.join(a, b)\<close> on a POSIX system.\<close>

definition os_path_join :: "path \<Rightarrow> path \<Rightarrow> path" where
  "os_path_join a b =
     (if b \<noteq> [] \<and> hd b = CHR ''/'' then b
      else if a = [] \<or> last a = CHR ''/'' then a @ b
      else a @ ''/'' @ b)"

section \<open>The PDF validator\<close>

text \<open>
  \<open>verify_pdf\<close>, lines 115 to 127. The existence and size tests stand before the
  \<open>try\<close>, so an exception of \<open>os.path.getsize\<close> would leave the function; the bare
  \<open>except\<close> turns every exception of \<open>open\<close> and \<open>read\<close> into \<open>False\<close>.
\<close>

definition verify_pdf :: "filesystem \<Rightarrow> path \<Rightarrow> exn + bool" where
  "verify_pdf fs filepath =
     (if \<not> os_path_exists fs filepath then Inr False
      else case os_path_getsize fs filepath of
        Inl e \<Rightarrow> Inl e
      | Inr n \<Rightarrow>
          if n < 100 then Inr False
          else (case open_read fs filepath 4 of
                  Inl e \<Rightarrow> Inr False
                | Inr header \<Rightarrow> Inr (header = ''%PDF'')))"

section \<open>Decoded JSON\<close>

text \<open>
  What \<open>json.loads\<close> returns: \<open>None\<close>, a bool, a number, a string, a list or a
  dict. A dict is its list of members as they stand in the text, where a later member
  with the same key replaces an earlier one. The code never computes with a number, so
  one constructor stands for \<open>int\<close> and \<open>float\<close>.
\<close>

datatype json =
    JNull
  | JBool bool
  | JNum int
  | JStr string
  | JArr "json list"
  | JObj "(string \<times> json) list"

text \<open>\<open>v.get(key, default)\<close>: only a dict has the method.\<close>

definition py_get :: "json \<Rightarrow> string \<Rightarrow> json \<Rightarrow> exn + json" where
  "py_get v key dflt =
     (case v of
        JObj kvs \<Rightarrow> Inr (case map_of (rev kvs) key of Some x \<Rightarrow> x | None \<Rightarrow> dflt)
      | _ \<Rightarrow> Inl AttributeError)"

text \<open>The truth value of \<open>if v\<close> and \<open>if not v\<close>.\<close>

definition py_truthy :: "json \<Rightarrow> bool" where
  "py_truthy v =
     (case v of
        JNull \<Rightarrow> False
      | JBool b \<Rightarrow> b
      | JNum n \<Rightarrow> n \<noteq> 0
      | JStr s \<Rightarrow> s \<noteq> []
      | JArr xs \<Rightarrow> xs \<noteq> []
      | JObj kvs \<Rightarrow> kvs \<noteq> [])"

text \<open>
  \<open>for x in v\<close>: the elements of a list, the keys of a dict in the order of their first
  insertion, the characters of a string; \<open>TypeError\<close> for every other value (\<open>len(v)\<close>
  raises it for the same values).
\<close>

definition py_iter :: "json \<Rightarrow> exn + json list" where
  "py_iter v =
     (case v of
        JArr xs \<Rightarrow> Inr xs
      | JObj kvs \<Rightarrow> Inr (map JStr (rev (remdups (rev (map fst kvs)))))
      | JStr s \<Rightarrow> Inr (map (\<lambda>c. JStr [c]) s)
      | _ \<Rightarrow> Inl TypeError)"

text \<open>
  A value inside an f-string. The text of a number, a list or a dict is left to the
  parameter \<open>repr\<close>.
\<close>

definition py_str :: "(json \<Rightarrow> string) \<Rightarrow> json \<Rightarrow> string" where
  "py_str repr v =
     (case v of
        JStr s \<Rightarrow> s
      | JNull \<Rightarrow> ''None''
      | JBool b \<Rightarrow> (if b then ''True'' else ''False'')
      | _ \<Rightarrow> repr v)"

section \<open>The world outside the worker\<close>

text \<open>
  The worker thread reads \<open>self.stop_flag\<close>, asks the list endpoint through
  \<open>urllib\<close> and starts \<open>curl\<close> through \<open>subprocess.run\<close>. The environment gives
  the answer to each:
  \<^item> \<open>stop_flag k\<close> is the value the worker finds at its read number \<open>k\<close> of the
    flag (the interface thread sets it between two reads);
  \<^item> \<open>urlopen_json url key\<close> is the decoded body of the list request, or \<open>None\<close>
    when \<open>urlopen\<close>, \<open>read\<close>, \<open>decode\<close> or \<open>json.loads\<close> raises;
  \<^item> \<open>run_curl cmd fs\<close> is \<open>None\<close> when \<open>subprocess.run\<close> raises, and else the
    return code of the process and the file system it leaves;
  \<^item> \<open>py_repr\<close> is the text of a number, list or dict in an f-string.
\<close>

record env =
  stop_flag :: "nat \<Rightarrow> bool"
  urlopen_json :: "string \<Rightarrow> string \<Rightarrow> json option"
  run_curl :: "string list \<Rightarrow> filesystem \<Rightarrow> (int \<times> filesystem) option"
  py_repr :: "json \<Rightarrow> string"

text \<open>
  The requests the worker has made, oldest first: a list request with its URL, and a
  call of \<open>subprocess.run\<close> with its command and the return code of the process
  (\<open>None\<close> when the call raised).
\<close>

datatype event = ListRequest string | Curl "string list" "int option"

record state =
  disk :: filesystem
  requests :: "event list"
  polls :: nat
  processed_count :: nat
  success_count :: nat

section \<open>The redirect resolver\<close>

text \<open>
  The header dump is opened with \<open>encoding='utf-8', errors='ignore'\<close>. A byte below
  128 is its character; the bytes 0xC2 and 0xC3 with a continuation byte (0x80 to 0xBF)
  after them give the characters 0x80 to 0xFF; a byte that starts or continues no valid
  sequence is dropped. A sequence for a character above 255, which a string of this
  theory cannot hold, is dropped as well.
\<close>

fun utf8_ignore :: "string \<Rightarrow> string" where
  "utf8_ignore [] = []"
| "utf8_ignore [b] = (if digit7 b then [] else [b])"
| "utf8_ignore (b # d # bs) =
     (if \<not> digit7 b then b # utf8_ignore (d # bs)
      else if (b = CHR 0xC2 \<or> b = CHR 0xC3) \<and> digit7 d \<and> \<not> digit6 d
      then (if b = CHR 0xC2 then d
            else Char (digit0 d) (digit1 d) (digit2 d) (digit3 d) (digit4 d) (digit5 d) True True)
           # utf8_ignore bs
      else utf8_ignore (d # bs))"

text \<open>
  In text mode Python then turns \<open>\r\n\<close> and a lone \<open>\r\<close> into \<open>\n\<close>.
\<close>

fun universal_newlines :: "string \<Rightarrow> string" where
  "universal_newlines [] = []"
| "universal_newlines [c] = (if c = CHR 0x0D then [CHR 0x0A] else [c])"
| "universal_newlines (c # d # cs) =
     (if c = CHR 0x0D \<and> d = CHR 0x0A then CHR 0x0A # universal_newlines cs
      else if c = CHR 0x0D then CHR 0x0A # universal_newlines (d # cs)
      else c # universal_newlines (d # cs))"

definition open_read_text :: "filesystem \<Rightarrow> path \<Rightarrow> exn + string" where
  "open_read_text fs p =
     (case nodes fs p of
        None \<Rightarrow> Inl OSError
      | Some Dir \<Rightarrow> Inl OSError
      | Some (File c) \<Rightarrow>
          if p \<in> unreadable fs then Inl OSError
          else Inr (universal_newlines (utf8_ignore c)))"

text \<open>
  \<open>re.search(r'^[Ll]ocation:\s*(.+)\r?$', content, re.MULTILINE)\<close>, as a backtracking
  matcher. \<open>at_eol\<close> is \<open>$\<close>: the end of the text, or the place before a line feed.
  \<open>opt_cr_eol\<close> is \<open>\r?$\<close>. \<open>dot_plus m s\<close> is the group \<open>(.+)\<close> followed by
  \<open>\r?$\<close>: it tries \<open>m\<close> characters, then fewer, never none. \<open>ws_star k s\<close> is
  \<open>\s*\<close> followed by the rest: it tries \<open>k\<close> characters of whitespace, then fewer.
  The result is the text of group 1.
\<close>

definition at_eol :: "string \<Rightarrow> bool" where
  "at_eol s = (case s of [] \<Rightarrow> True | c # _ \<Rightarrow> c = CHR 0x0A)"

definition opt_cr_eol :: "string \<Rightarrow> bool" where
  "opt_cr_eol s = (case s of [] \<Rightarrow> True | c # t \<Rightarrow> (c = CHR 0x0D \<and> at_eol t) \<or> at_eol s)"

primrec dot_plus :: "nat \<Rightarrow> string \<Rightarrow> string option" where
  "dot_plus 0 s = None"
| "dot_plus (Suc m) s =
     (if opt_cr_eol (drop (Suc m) s) then Some (take (Suc m) s) else dot_plus m s)"

definition group_from :: "string \<Rightarrow> string option" where
  "group_from s = dot_plus (length (takeWhile (\<lambda>c. c \<noteq> CHR 0x0A) s)) s"

primrec ws_star :: "nat \<Rightarrow> string \<Rightarrow> string option" where
  "ws_star 0 s = group_from s"
| "ws_star (Suc k) s =
     (case group_from (drop (Suc k) s) of Some g \<Rightarrow> Some g | None \<Rightarrow> ws_star k s)"

text \<open>The pattern at one position of the text (which \<open>^\<close> has accepted).\<close>

definition match_location :: "string \<Rightarrow> string option" where
  "match_location s =
     (if take 9 s = ''Location:'' \<or> take 9 s = ''location:''
      then ws_star (length (takeWhile py_isspace (drop 9 s))) (drop 9 s)
      else None)"

text \<open>
  \<open>re.search\<close> takes the leftmost position where the pattern matches; \<open>^\<close> holds at
  the start of the text and after each line feed (\<open>bol\<close>).
\<close>

fun re_search_from :: "bool \<Rightarrow> string \<Rightarrow> string option" where
  "re_search_from bol [] = None"
| "re_search_from bol (c # cs) =
     (case (if bol then match_location (c # cs) else None) of
        Some g \<Rightarrow> Some g
      | None \<Rightarrow> re_search_from (c = CHR 0x0A) cs)"

definition re_search_location :: "string \<Rightarrow> string option" where
  "re_search_location content = re_search_from True content"

text \<open>The value \<open>get_redirect_url\<close> returns for a header block it has read.\<close>

definition location_of :: "string \<Rightarrow> string option" where
  "location_of content = map_option py_strip (re_search_location content)"

definition user_agent :: string where
  "user_agent = ''User-Agent: Mozilla/5.0 (Macintosh; Intel Mac OS X 10_15_7) AppleWebKit/537.36 (KHTML, like Gecko) Chrome/120.0.0.0 Safari/537.36''"

definition probe_cmd :: "path \<Rightarrow> string \<Rightarrow> string \<Rightarrow> string list" where
  "probe_cmd temp_header_file api_key url =
     [''curl'', ''-s'', ''-D'', temp_header_file, ''-o'', ''/dev/null'',
      ''-H'', ''X-API-KEY: '' @ api_key, ''-H'', user_agent, ''--max-time'', ''20'', url]"

text \<open>
  \<open>get_redirect_url\<close>, lines 129 to 178. The removal of the old header file stands
  before the \<open>try\<close>: its exception leaves the function. \<open>subprocess.run\<close> raises
  \<open>TypeError\<close> for a command with an argument that is not a string, before any
  process starts; that and every later exception is caught and gives \<open>None\<close>.
\<close>

definition get_redirect_url ::
  "env \<Rightarrow> json \<Rightarrow> string \<Rightarrow> path \<Rightarrow> state \<Rightarrow> (exn \<times> state) + (string option \<times> state)" where
  "get_redirect_url e url api_key temp_header_file s =
     (case (if os_path_exists (disk s) temp_header_file
            then os_remove (disk s) temp_header_file else Inr (disk s)) of
        Inl x \<Rightarrow> Inl (x, s)
      | Inr fs1 \<Rightarrow>
          (case url of
             JStr u \<Rightarrow>
               (let cmd = probe_cmd temp_header_file api_key u;
                    s1 = s\<lparr>disk := fs1,
                           requests := requests s @ [Curl cmd (map_option fst (run_curl e cmd fs1))]\<rparr>
                in case run_curl e cmd fs1 of
                     None \<Rightarrow> Inr (None, s1)
                   | Some (rc, fs2) \<Rightarrow>
                       if \<not> os_path_exists fs2 temp_header_file
                       then Inr (None, s1\<lparr>disk := fs2\<rparr>)
                       else (case open_read_text fs2 temp_header_file of
                               Inl x \<Rightarrow> Inr (None, s1\<lparr>disk := fs2\<rparr>)
                             | Inr content \<Rightarrow> Inr (location_of content, s1\<lparr>disk := fs2\<rparr>)))
           | _ \<Rightarrow> Inr (None, s\<lparr>disk := fs1\<rparr>)))"

section \<open>The fetcher\<close>

definition download_cmd :: "path \<Rightarrow> bool \<Rightarrow> string \<Rightarrow> string \<Rightarrow> string list" where
  "download_cmd filepath use_key api_key url =
     [''curl'', ''-L'', ''-s'', ''-o'', filepath, ''-H'', user_agent,
      ''--max-time'', ''120'', ''--retry'', ''2'']
     @ (if use_key \<and> api_key \<noteq> [] then [''-H'', ''X-API-KEY: '' @ api_key] else [])
     @ [url]"

text \<open>
  \<open>download_final\<close>, lines 180 to 209: \<open>True\<close> exactly when \<open>curl\<close> ran and
  returned 0. Called without \<open>api_key\<close>, the parameter is \<open>None\<close>, which counts as
  the empty key here.
\<close>

definition download_final ::
  "env \<Rightarrow> json \<Rightarrow> path \<Rightarrow> bool \<Rightarrow> string \<Rightarrow> state \<Rightarrow> bool \<times> state" where
  "download_final e url filepath use_key api_key s =
     (case url of
        JStr u \<Rightarrow>
          (let cmd = download_cmd filepath use_key api_key u;
               s1 = s\<lparr>requests := requests s @ [Curl cmd (map_option fst (run_curl e cmd (disk s)))]\<rparr>
           in case run_curl e cmd (disk s) of
                None \<Rightarrow> (False, s1)
              | Some (rc, fs') \<Rightarrow> (rc = 0, s1\<lparr>disk := fs'\<rparr>))
      | _ \<Rightarrow> (False, s))"

section \<open>The batch orchestrator\<close>

text \<open>
  The body of the document loop, lines 282 to 288: the identifier, the code and the
  date of the record, and the path of its file. \<open>get\<close> needs a dict and \<open>split\<close> a
  string; on any other value Python raises \<open>AttributeError\<close>, and no handler stands
  around these lines.
\<close>

definition doc_target :: "env \<Rightarrow> string \<Rightarrow> path \<Rightarrow> json \<Rightarrow> exn + (json \<times> path)" where
  "doc_target e app_num app_folder doc =
     (case py_get doc ''documentIdentifier'' JNull of
        Inl x \<Rightarrow> Inl x
      | Inr doc_id \<Rightarrow>
          (case py_get doc ''documentCode'' (JStr ''DOC'') of
             Inl x \<Rightarrow> Inl x
           | Inr doc_code \<Rightarrow>
               (case py_get doc ''officialDate'' (JStr ''nodate'') of
                  Inl x \<Rightarrow> Inl x
                | Inr d \<Rightarrow>
                    (case d of
                       JStr ds \<Rightarrow>
                         Inr (doc_id,
                              os_path_join app_folder
                                (app_num @ ''_'' @ split_first (CHR ''T'') ds @ ''_''
                                 @ py_str (py_repr e) doc_code @ ''_''
                                 @ py_str (py_repr e) doc_id @ ''.pdf''))
                     | _ \<Rightarrow> Inl AttributeError))))"

text \<open>
  Lines 302 to 307: the loop over \<open>downloadOptionBag\<close> stops at the first entry whose
  upper-cased \<open>mimeTypeIdentifier\<close> is \<open>PDF\<close> and takes its \<open>downloadUrl\<close>
  (\<open>None\<close> when the entry has none). The result is \<open>official_url\<close> after the loop.
\<close>

fun scan_options :: "json list \<Rightarrow> exn + json" where
  "scan_options [] = Inr JNull"
| "scan_options (opt # opts) =
     (case py_get opt ''mimeTypeIdentifier'' (JStr []) of
        Inl x \<Rightarrow> Inl x
      | Inr m \<Rightarrow>
          (case m of
             JStr ms \<Rightarrow>
               if py_upper ms = ''PDF'' then py_get opt ''downloadUrl'' JNull
               else scan_options opts
           | _ \<Rightarrow> Inl AttributeError))"

text \<open>Lines 302 to 311: the URL the document is fetched from.\<close>

definition official_url :: "env \<Rightarrow> string \<Rightarrow> json \<Rightarrow> json \<Rightarrow> exn + json" where
  "official_url e list_url doc doc_id =
     (case py_get doc ''downloadOptionBag'' (JArr []) of
        Inl x \<Rightarrow> Inl x
      | Inr options \<Rightarrow>
          (case py_iter options of
             Inl x \<Rightarrow> Inl x
           | Inr opts \<Rightarrow>
               (case scan_options opts of
                  Inl x \<Rightarrow> Inl x
                | Inr u \<Rightarrow>
                    if \<not> py_truthy u
                    then py_get doc ''downloadUrl''
                           (JStr (list_url @ ''/'' @ py_str (py_repr e) doc_id))
                    else Inr u)))"

text \<open>
  Lines 322 to 339, the part the two branches share: when the download command
  succeeded and the file validates, the success counter goes up by one.
\<close>

definition count_if_valid :: "path \<Rightarrow> bool \<times> state \<Rightarrow> (exn \<times> state) + state" where
  "count_if_valid filepath r =
     (case r of
        (ok, s) \<Rightarrow>
          if ok
          then (case verify_pdf (disk s) filepath of
                  Inl x \<Rightarrow> Inl (x, s)
                | Inr valid \<Rightarrow>
                    Inr (if valid then s\<lparr>success_count := success_count s + 1\<rparr> else s))
          else Inr s)"

text \<open>\<open>if s3_url:\<close> holds for a string that is not empty.\<close>

definition redirect_found :: "string option \<Rightarrow> bool" where
  "redirect_found s3_url = (case s3_url of None \<Rightarrow> False | Some u \<Rightarrow> u \<noteq> [])"

text \<open>Lines 300 to 339: steps D and E of the loop body.\<close>

definition fetch_doc ::
  "env \<Rightarrow> string \<Rightarrow> path \<Rightarrow> string \<Rightarrow> json \<Rightarrow> json \<Rightarrow> path \<Rightarrow> state \<Rightarrow> (exn \<times> state) + state" where
  "fetch_doc e api_key temp_header_file list_url doc doc_id filepath s =
     (case official_url e list_url doc doc_id of
        Inl x \<Rightarrow> Inl (x, s)
      | Inr url \<Rightarrow>
          (case get_redirect_url e url api_key temp_header_file s of
             Inl xs \<Rightarrow> Inl xs
           | Inr (s3_url, s1) \<Rightarrow>
               (case s3_url of
                  Some u \<Rightarrow>
                    if redirect_found s3_url
                    then count_if_valid filepath (download_final e (JStr u) filepath False [] s1)
                    else count_if_valid filepath (download_final e url filepath True api_key s1)
                | None \<Rightarrow>
                    count_if_valid filepath (download_final e url filepath True api_key s1))))"

text \<open>
  Lines 290 to 298, step C: a file that exists and validates ends the iteration
  (\<open>continue\<close>); one that exists and does not validate is removed, and the
  \<open>try\<close> around \<open>os.remove\<close> drops its exception.
\<close>

definition remove_quietly :: "filesystem \<Rightarrow> path \<Rightarrow> filesystem" where
  "remove_quietly fs p = (case os_remove fs p of Inl x \<Rightarrow> fs | Inr fs' \<Rightarrow> fs')"

text \<open>The body of the document loop, lines 281 to 342.\<close>

definition process_doc ::
  "env \<Rightarrow> string \<Rightarrow> path \<Rightarrow> string \<Rightarrow> path \<Rightarrow> string \<Rightarrow> json \<Rightarrow> state \<Rightarrow> (exn \<times> state) + state" where
  "process_doc e api_key temp_header_file app_num app_folder list_url doc s =
     (case doc_target e app_num app_folder doc of
        Inl x \<Rightarrow> Inl (x, s)
      | Inr (doc_id, filepath) \<Rightarrow>
          if os_path_exists (disk s) filepath
          then (case verify_pdf (disk s) filepath of
                  Inl x \<Rightarrow> Inl (x, s)
                | Inr valid \<Rightarrow>
                    if valid then Inr s
                    else fetch_doc e api_key temp_header_file list_url doc doc_id filepath
                           (s\<lparr>disk := remove_quietly (disk s) filepath\<rparr>))
          else fetch_doc e api_key temp_header_file list_url doc doc_id filepath s)"

text \<open>
  The document loop, lines 278 to 342. Each iteration starts with a read of the stop
  flag; \<open>break\<close> ends the loop. An exception of the body ends the loop and everything
  around it.
\<close>

fun process_docs ::
  "env \<Rightarrow> string \<Rightarrow> path \<Rightarrow> string \<Rightarrow> path \<Rightarrow> string \<Rightarrow> json list \<Rightarrow> state \<Rightarrow> (exn \<times> state) + state" where
  "process_docs e api_key temp_header_file app_num app_folder list_url [] s = Inr s"
| "process_docs e api_key temp_header_file app_num app_folder list_url (doc # docs) s =
     (if stop_flag e (polls s) then Inr (s\<lparr>polls := polls s + 1\<rparr>)
      else (case process_doc e api_key temp_header_file app_num app_folder list_url doc
                   (s\<lparr>polls := polls s + 1\<rparr>) of
              Inl xs \<Rightarrow> Inl xs
            | Inr s' \<Rightarrow>
                process_docs e api_key temp_header_file app_num app_folder list_url docs s'))"

definition list_url_of :: "string \<Rightarrow> string" where
  "list_url_of app_num = ''https://api.uspto.gov/api/v1/patent/applications/'' @ app_num @ ''/documents''"

text \<open>
  Lines 260 to 269: the list request. \<open>None\<close> stands for the \<open>continue\<close> of the
  handler, which also catches the \<open>AttributeError\<close> of \<open>data.get\<close> on a value that
  is neither a list nor a dict.
\<close>

definition list_docs :: "env \<Rightarrow> string \<Rightarrow> string \<Rightarrow> json option" where
  "list_docs e list_url api_key =
     (case urlopen_json e list_url api_key of
        None \<Rightarrow> None
      | Some data \<Rightarrow>
          (case data of
             JArr xs \<Rightarrow> Some data
           | _ \<Rightarrow> (case py_get data ''documentBag'' (JArr []) of
                      Inl x \<Rightarrow> None
                    | Inr docs \<Rightarrow> Some docs)))"

text \<open>The loop over the application numbers, lines 246 to 342.\<close>

fun process_apps ::
  "env \<Rightarrow> string \<Rightarrow> path \<Rightarrow> path \<Rightarrow> string list \<Rightarrow> state \<Rightarrow> (exn \<times> state) + state" where
  "process_apps e api_key root_dir temp_header_file [] s = Inr s"
| "process_apps e api_key root_dir temp_header_file (app_num # rest) s =
     (if stop_flag e (polls s) then Inr (s\<lparr>polls := polls s + 1\<rparr>)
      else
        (let s1 = s\<lparr>polls := polls s + 1, processed_count := processed_count s + 1\<rparr>;
             app_folder = os_path_join root_dir (''App_'' @ app_num)
         in case (if os_path_exists (disk s1) app_folder then Inr (disk s1)
                  else os_makedirs (disk s1) app_folder) of
              Inl x \<Rightarrow> Inl (x, s1)
            | Inr fs1 \<Rightarrow>
                (let list_url = list_url_of app_num;
                     s2 = s1\<lparr>disk := fs1, requests := requests s1 @ [ListRequest list_url]\<rparr>
                 in case list_docs e list_url api_key of
                      None \<Rightarrow> process_apps e api_key root_dir temp_header_file rest s2
                    | Some docs \<Rightarrow>
                        if \<not> py_truthy docs
                        then process_apps e api_key root_dir temp_header_file rest s2
                        else (case py_iter docs of
                                Inl x \<Rightarrow> Inl (x, s2)
                              | Inr ds \<Rightarrow>
                                  (case process_docs e api_key temp_header_file app_num
                                          app_folder list_url ds s2 of
                                     Inl xs \<Rightarrow> Inl xs
                                   | Inr s3 \<Rightarrow>
                                       process_apps e api_key root_dir temp_header_file rest s3)))))"

text \<open>
  \<open>run_process\<close>, lines 211 to 352. The operator gives the text of the key field, the
  text of the number box and the folder chosen in the dialog (empty when the dialog
  was cancelled). \<open>Crashed\<close> is an exception that leaves the method and ends the
  worker thread; \<open>Finished n\<close> is the final message with its count of new valid files.
\<close>

datatype outcome = MissingKey | NoNumbers | NoFolder | Finished nat | Crashed exn

definition run_process :: "env \<Rightarrow> string \<Rightarrow> string \<Rightarrow> path \<Rightarrow> state \<Rightarrow> outcome \<times> state" where
  "run_process e entry_key txt_list root_dir s =
     (let api_key = py_strip entry_key; raw_list = py_strip txt_list
      in if api_key = [] then (MissingKey, s)
         else if app_numbers raw_list = [] then (NoNumbers, s)
         else if root_dir = [] then (NoFolder, s)
         else
           (let temp_header_file = os_path_join root_dir ''temp_headers_debug.txt''
            in case process_apps e api_key root_dir temp_header_file (app_numbers raw_list)
                      (s\<lparr>processed_count := 0, success_count := 0\<rparr>) of
                 Inl (x, s') \<Rightarrow> (Crashed x, s')
               | Inr s' \<Rightarrow>
                   if os_path_exists (disk s') temp_header_file
                   then (case os_remove (disk s') temp_header_file of
                           Inl x \<Rightarrow> (Crashed x, s')
                         | Inr fs' \<Rightarrow> (Finished (success_count s'), s'\<lparr>disk := fs'\<rparr>))
                   else (Finished (success_count s'), s')))"

section \<open>The wording of the specification\<close>

text \<open>
  Definitions that follow the words of the specification, for comparison with the
  definitions above, which follow the code. \<open>member v key\<close> is the value a dict holds
  under a key.
\<close>

definition member :: "json \<Rightarrow> string \<Rightarrow> json option" where
  "member v key = (case v of JObj kvs \<Rightarrow> map_of (rev kvs) key | _ \<Rightarrow> None)"

text \<open>A MIME type that equals \<open>PDF\<close> case-insensitively: one of its eight spellings.\<close>

definition is_pdf_mime :: "string \<Rightarrow> bool" where
  "is_pdf_mime m =
     (m \<in> set [''PDF'', ''PDf'', ''PdF'', ''Pdf'', ''pDF'', ''pDf'', ''pdF'', ''pdf''])"

text \<open>An entry of \<open>downloadOptionBag\<close> whose \<open>mimeTypeIdentifier\<close> is such a string.\<close>

definition pdf_entry :: "json \<Rightarrow> bool" where
  "pdf_entry opt =
     (case member opt ''mimeTypeIdentifier'' of
        Some m \<Rightarrow> (case m of JStr ms \<Rightarrow> is_pdf_mime ms | _ \<Rightarrow> False)
      | None \<Rightarrow> False)"

text \<open>
  A well-formed entry: a dict whose \<open>mimeTypeIdentifier\<close>, when it has one, is a
  string.
\<close>

definition entry_ok :: "json \<Rightarrow> bool" where
  "entry_ok opt =
     (case opt of
        JObj kvs \<Rightarrow>
          (case map_of (rev kvs) ''mimeTypeIdentifier'' of
             None \<Rightarrow> True
           | Some m \<Rightarrow> (case m of JStr ms \<Rightarrow> True | _ \<Rightarrow> False))
      | _ \<Rightarrow> False)"

text \<open>The lines of a text, as \<open>text.split('\n')\<close> gives them.\<close>

primrec lines_of :: "string \<Rightarrow> string list" where
  "lines_of [] = [[]]"
| "lines_of (c # cs) =
     (if c = CHR 0x0A then [] # lines_of cs
      else (case lines_of cs of [] \<Rightarrow> [[c]] | l # ls \<Rightarrow> (c # l) # ls))"

text \<open>A line that starts with the field name as the pattern spells it.\<close>

definition location_line :: "string \<Rightarrow> bool" where
  "location_line l = (take 9 l = ''Location:'' \<or> take 9 l = ''location:'')"

text \<open>
  Between the states \<open>s\<close> and \<open>s'\<close> a download command for \<open>filepath\<close> was the last
  request, its process returned 0, and the file validates in \<open>s'\<close>.
\<close>

definition new_valid_download :: "state \<Rightarrow> state \<Rightarrow> path \<Rightarrow> bool" where
  "new_valid_download s s' filepath =
     (requests s' \<noteq> requests s
      \<and> (\<exists>use_key api_key u.
            last (requests s') = Curl (download_cmd filepath use_key api_key u) (Some 0))
      \<and> verify_pdf (disk s') filepath = Inr True)"

text \<open>
  The number of download commands among the requests: \<open>download_final\<close> starts
  \<open>curl\<close> with \<open>-L\<close> as its first option, \<open>get_redirect_url\<close> with \<open>-s\<close>.
\<close>

definition is_download :: "event \<Rightarrow> bool" where
  "is_download ev = (case ev of Curl cmd rc \<Rightarrow> take 2 cmd = [''curl'', ''-L''] | ListRequest u \<Rightarrow> False)"

definition download_count :: "event list \<Rightarrow> nat" where
  "download_count evs = length (filter is_download evs)"

text \<open>A download command whose process returned 0.\<close>

definition ok_download :: "event \<Rightarrow> bool" where
  "ok_download ev =
     (case ev of
        Curl cmd rc \<Rightarrow> take 2 cmd = [''curl'', ''-L''] \<and> rc = Some 0
      | ListRequest u \<Rightarrow> False)"

text \<open>
  The pipeline run a second time with the same inputs, on what the first run has left;
  the record of requests starts afresh, so that it holds the requests of the second run.
\<close>

definition second_run :: "env \<Rightarrow> string \<Rightarrow> string \<Rightarrow> path \<Rightarrow> state \<Rightarrow> outcome \<times> state" where
  "second_run e entry_key txt_list root_dir s =
     run_process e entry_key txt_list root_dir
       ((snd (run_process e entry_key txt_list root_dir s))\<lparr>requests := []\<rparr>)"

text \<open>
  Every target path validates: each application number whose list request succeeds
  gives records whose target path can be derived and holds a valid PDF on the disk.
\<close>

definition targets_valid :: "env \<Rightarrow> string \<Rightarrow> path \<Rightarrow> string list \<Rightarrow> filesystem \<Rightarrow> bool" where
  "targets_valid e api_key root_dir apps fs =
     (\<forall>app_num\<in>set apps.
        case list_docs e (list_url_of app_num) api_key of
          None \<Rightarrow> True
        | Some docs \<Rightarrow>
            \<not> py_truthy docs \<or>
            (case py_iter docs of
               Inl x \<Rightarrow> False
             | Inr ds \<Rightarrow>
                 (\<forall>doc\<in>set ds.
                    case doc_target e app_num (os_path_join root_dir (''App_'' @ app_num)) doc of
                      Inl x \<Rightarrow> False
                    | Inr t \<Rightarrow> verify_pdf fs (snd t) = Inr True)))"

text \<open>The state a loop ends in, whether it returns or raises.\<close>

definition end_state :: "(exn \<times> state) + state \<Rightarrow> state" where
  "end_state r = (case r of Inl xs \<Rightarrow> snd xs | Inr s \<Rightarrow> s)"

section \<open>Example worlds\<close>

text \<open>
  Concrete file systems, servers and runs, for the instances of the theorems below.
  \<open>table_curl\<close> is a \<open>curl\<close> that answers from a table of URLs, each with the
  header block and the body its server sends: a header probe (\<open>-D file\<close>) writes the
  header block, a download (\<open>-o file\<close>) writes the body, and a URL that is not in the
  table gives return code 6 and writes nothing.
\<close>

definition empty_disk :: filesystem where
  "empty_disk =
     \<lparr>nodes = Map.empty, unreadable = {}, undeletable = {}, uncreatable = {}, dir_bytes = 4096\<rparr>"

definition write_file :: "filesystem \<Rightarrow> path \<Rightarrow> string \<Rightarrow> filesystem" where
  "write_file fs p b = fs\<lparr>nodes := (nodes fs)(p \<mapsto> File b)\<rparr>"

definition table_curl ::
  "(string \<times> string \<times> string) list \<Rightarrow> string list \<Rightarrow> filesystem \<Rightarrow> (int \<times> filesystem) option" where
  "table_curl table cmd fs =
     (case map_of table (last cmd) of
        None \<Rightarrow> Some (6, fs)
      | Some (headers, body) \<Rightarrow>
          if cmd ! 2 = ''-D'' then Some (0, write_file fs (cmd ! 3) headers)
          else Some (0, write_file fs (cmd ! 4) body))"

definition start :: state where
  "start = \<lparr>disk = empty_disk, requests = [], polls = 0, processed_count = 0, success_count = 0\<rparr>"

definition crlf :: string where
  "crlf = [CHR 0x0D, CHR 0x0A]"

definition pdf_bytes :: string where
  "pdf_bytes = ''%PDF'' @ replicate 496 (CHR ''x'')"

definition html_bytes :: string where
  "html_bytes = ''<html>'' @ replicate 200 (CHR ''e'') @ ''</html>''"

definition doc1 :: json where
  "doc1 = JObj [(''documentIdentifier'', JStr ''D1''), (''documentCode'', JStr ''SPEC''),
                (''officialDate'', JStr ''2023-05-01T00:00:00Z''),
                (''downloadOptionBag'',
                   JArr [JObj [(''mimeTypeIdentifier'', JStr ''PDF''),
                               (''downloadUrl'', JStr ''https://api.example/doc1'')]])]"

definition doc2 :: json where
  "doc2 = JObj [(''documentIdentifier'', JStr ''D2''), (''documentCode'', JStr ''CLM''),
                (''officialDate'', JStr ''2023-05-02T00:00:00Z''),
                (''downloadOptionBag'',
                   JArr [JObj [(''mimeTypeIdentifier'', JStr ''XML''),
                               (''downloadUrl'', JStr ''https://api.example/doc2.xml'')]]),
                (''downloadUrl'', JStr ''https://api.example/doc2'')]"

definition doc3 :: json where
  "doc3 = JObj [(''documentIdentifier'', JStr ''D3''), (''documentCode'', JStr ''ABST'')]"

text \<open>
  The list endpoint knows application 17123456 with the one document \<open>doc1\<close>; its URL
  redirects to object storage, which serves a PDF of 500 bytes.
\<close>

definition env_redirect :: env where
  "env_redirect =
     \<lparr>stop_flag = (\<lambda>k. False),
      urlopen_json = (\<lambda>url key. if url = list_url_of ''17123456'' then Some (JArr [doc1]) else None),
      run_curl = table_curl
        [(''https://api.example/doc1'',
            ''HTTP/1.1 302 Found'' @ crlf @ ''Location: https://s3.example/doc1.pdf'' @ crlf @ crlf, []),
         (''https://s3.example/doc1.pdf'', ''HTTP/1.1 200 OK'' @ crlf @ crlf, pdf_bytes)],
      py_repr = (\<lambda>v. [])\<rparr>"

text \<open>A server that spells the field name of its redirect in capitals.\<close>

definition env_capitals :: env where
  "env_capitals =
     \<lparr>stop_flag = (\<lambda>k. False),
      urlopen_json = (\<lambda>url key. if url = list_url_of ''17123456'' then Some (JArr [doc1]) else None),
      run_curl = table_curl
        [(''https://api.example/doc1'',
            ''HTTP/1.1 302 Found'' @ crlf @ ''LOCATION: https://s3.example/doc1.pdf'' @ crlf @ crlf, []),
         (''https://s3.example/doc1.pdf'', ''HTTP/1.1 200 OK'' @ crlf @ crlf, pdf_bytes)],
      py_repr = (\<lambda>v. [])\<rparr>"

text \<open>
  A list endpoint that knows application 17123456 with the given documents, and a
  web of four URLs: the first redirects to the second, which serves a PDF; the third
  serves a PDF itself; the fourth serves an HTML page. \<open>doc3\<close> has no URL of its own,
  and its fallback URL is not on the web.
\<close>

definition doc4 :: json where
  "doc4 = JObj [(''documentIdentifier'', JStr ''D4''), (''documentCode'', JStr ''NPL''),
                (''officialDate'', JStr ''2023-05-04''),
                (''downloadUrl'', JStr ''https://api.example/doc4'')]"

definition web :: "(string \<times> string \<times> string) list" where
  "web =
     [(''https://api.example/doc1'',
         ''HTTP/1.1 302 Found'' @ crlf @ ''Location: https://s3.example/doc1.pdf'' @ crlf @ crlf, []),
      (''https://s3.example/doc1.pdf'', ''HTTP/1.1 200 OK'' @ crlf @ crlf, pdf_bytes),
      (''https://api.example/doc2'', ''HTTP/1.1 200 OK'' @ crlf @ crlf, pdf_bytes),
      (''https://api.example/doc4'', ''HTTP/1.1 200 OK'' @ crlf @ crlf, html_bytes)]"

definition serve :: "json list \<Rightarrow> env" where
  "serve docs =
     \<lparr>stop_flag = (\<lambda>k. False),
      urlopen_json = (\<lambda>url key. if url = list_url_of ''17123456'' then Some (JArr docs) else None),
      run_curl = table_curl web,
      py_repr = (\<lambda>v. [])\<rparr>"

text \<open>
  The same endpoint for every application number, with an operator who presses Stop
  after the worker has read the flag \<open>n\<close> times.
\<close>

definition serve_until :: "nat \<Rightarrow> json list \<Rightarrow> env" where
  "serve_until n docs =
     \<lparr>stop_flag = (\<lambda>k. n \<le> k),
      urlopen_json = (\<lambda>url key. Some (JArr docs)),
      run_curl = table_curl web,
      py_repr = (\<lambda>v. [])\<rparr>"

text \<open>A record whose \<open>officialDate\<close> is \<open>null\<close>.\<close>

definition doc_null_date :: json where
  "doc_null_date = JObj [(''documentIdentifier'', JStr ''D0''), (''officialDate'', JNull),
                         (''downloadUrl'', JStr ''https://api.example/doc2'')]"

text \<open>The paths of the example runs, and disks that hold a target file already.\<close>

definition out_temp :: path where
  "out_temp = ''/out/temp_headers_debug.txt''"

definition out_folder :: path where
  "out_folder = ''/out/App_17123456''"

definition target1 :: path where
  "target1 = ''/out/App_17123456/17123456_2023-05-01_SPEC_D1.pdf''"

definition state_with :: "path \<Rightarrow> node \<Rightarrow> state" where
  "state_with p n = start\<lparr>disk := empty_disk\<lparr>nodes := [out_folder \<mapsto> Dir, p \<mapsto> n]\<rparr>\<rparr>"

text \<open>
  A disk with a PDF, a file that is too short, an HTML page, a PDF that cannot be
  opened, and a directory.
\<close>

definition sample_disk :: filesystem where
  "sample_disk =
     \<lparr>nodes = [''/out/good.pdf'' \<mapsto> File pdf_bytes, ''/out/short.pdf'' \<mapsto> File ''%PDF-1.4'',
               ''/out/page.pdf'' \<mapsto> File html_bytes, ''/out/locked.pdf'' \<mapsto> File pdf_bytes,
               ''/out/folder'' \<mapsto> Dir],
      unreadable = {''/out/locked.pdf''}, undeletable = {}, uncreatable = {}, dir_bytes = 4096\<rparr>"

section \<open>Properties\<close>

lemma split_from_example:
  "split_from [] ''17/123 456'' = [''17/123'', ''456'']"
  by (simp add: py_isspace_def)

text \<open>
  Claim C6. The operator input \<open>17/123,456\<close> is meant to be the one application number
  \<open>17123456\<close>, with slash and comma stripped from the identifier. The code turns every
  comma into a space before it splits, so the input becomes the two application
  numbers \<open>17123\<close> and \<open>456\<close>, and the later removal of commas from each identifier
  never finds one.
\<close>

theorem app_numbers_formatted_number:
  "app_numbers (py_strip ''17/123,456'') = [''17123'', ''456'']"
  by (simp add: app_numbers_def py_strip_def py_split_def py_replace_def py_isspace_def)

text \<open>
  Claim C2. The validator answers \<open>False\<close> for a path that does not exist, for a file
  of fewer than 100 bytes whatever its content, and for a file whose first four bytes
  are not \<open>%PDF\<close>; it answers \<open>True\<close> for a file of at least 100 bytes that starts
  with \<open>%PDF\<close> and can be read; an error of \<open>open\<close> or \<open>read\<close> gives
  \<open>False\<close>, and no exception ever leaves the function.
\<close>

theorem verify_pdf_contract:
  "(nodes fs p = None \<longrightarrow> verify_pdf fs p = Inr False)
   \<and> (\<forall>c. nodes fs p = Some (File c) \<and> length c < 100 \<longrightarrow> verify_pdf fs p = Inr False)
   \<and> (\<forall>c. nodes fs p = Some (File c) \<and> take 4 c \<noteq> ''%PDF'' \<longrightarrow> verify_pdf fs p = Inr False)
   \<and> (\<forall>c. nodes fs p = Some (File c) \<and> 100 \<le> length c \<and> take 4 c = ''%PDF'' \<and> p \<notin> unreadable fs
          \<longrightarrow> verify_pdf fs p = Inr True)
   \<and> (\<forall>x. open_read fs p 4 = Inl x \<longrightarrow> verify_pdf fs p = Inr False)
   \<and> (\<forall>x. verify_pdf fs p \<noteq> Inl x)"
  by (auto simp: verify_pdf_def os_path_exists_def os_path_getsize_def open_read_def
           split: option.splits node.splits sum.splits)

theorem verify_pdf_contract_witness:
  "verify_pdf sample_disk ''/out/missing.pdf'' = Inr False
   \<and> verify_pdf sample_disk ''/out/short.pdf'' = Inr False
   \<and> verify_pdf sample_disk ''/out/page.pdf'' = Inr False
   \<and> verify_pdf sample_disk ''/out/good.pdf'' = Inr True
   \<and> verify_pdf sample_disk ''/out/locked.pdf'' = Inr False
   \<and> verify_pdf sample_disk ''/out/folder'' = Inr False"
proof -
  have h1: "nodes sample_disk ''/out/missing.pdf'' = None"
    by (simp add: sample_disk_def)
  have h2: "nodes sample_disk ''/out/short.pdf'' = Some (File ''%PDF-1.4'') \<and> length ''%PDF-1.4'' < 100"
    by (simp add: sample_disk_def)
  have h3: "nodes sample_disk ''/out/page.pdf'' = Some (File html_bytes) \<and> take 4 html_bytes \<noteq> ''%PDF''"
    by (simp add: sample_disk_def html_bytes_def)
  have h4: "nodes sample_disk ''/out/good.pdf'' = Some (File pdf_bytes) \<and> 100 \<le> length pdf_bytes
            \<and> take 4 pdf_bytes = ''%PDF'' \<and> ''/out/good.pdf'' \<notin> unreadable sample_disk"
    by (simp add: sample_disk_def pdf_bytes_def)
  have h5: "open_read sample_disk ''/out/locked.pdf'' 4 = Inl OSError"
    by (simp add: sample_disk_def open_read_def)
  have h6: "open_read sample_disk ''/out/folder'' 4 = Inl OSError"
    by (simp add: sample_disk_def open_read_def)
  from verify_pdf_contract [of sample_disk "''/out/missing.pdf''"] h1
  have c1: "verify_pdf sample_disk ''/out/missing.pdf'' = Inr False" by blast
  from verify_pdf_contract [of sample_disk "''/out/short.pdf''"] h2
  have c2: "verify_pdf sample_disk ''/out/short.pdf'' = Inr False" by blast
  from verify_pdf_contract [of sample_disk "''/out/page.pdf''"] h3
  have c3: "verify_pdf sample_disk ''/out/page.pdf'' = Inr False" by blast
  from verify_pdf_contract [of sample_disk "''/out/good.pdf''"] h4
  have c4: "verify_pdf sample_disk ''/out/good.pdf'' = Inr True" by blast
  from verify_pdf_contract [of sample_disk "''/out/locked.pdf''"] h5
  have c5: "verify_pdf sample_disk ''/out/locked.pdf'' = Inr False" by blast
  from verify_pdf_contract [of sample_disk "''/out/folder''"] h6
  have c6: "verify_pdf sample_disk ''/out/folder'' = Inr False" by blast
  from c1 c2 c3 c4 c5 c6 show ?thesis by simp
qed

lemma upper_char_cases:
  "upper_char a = CHR ''P'' \<longleftrightarrow> a = CHR ''p'' \<or> a = CHR ''P''"
  "upper_char a = CHR ''D'' \<longleftrightarrow> a = CHR ''d'' \<or> a = CHR ''D''"
  "upper_char a = CHR ''F'' \<longleftrightarrow> a = CHR ''f'' \<or> a = CHR ''F''"
  by (auto simp: upper_char_def split: if_splits)

lemma py_upper_pdf: "py_upper m = ''PDF'' \<longleftrightarrow> is_pdf_mime m"
proof
  assume "py_upper m = ''PDF''"
  then obtain a b c where m: "m = [a, b, c]"
    and "upper_char a = CHR ''P''" "upper_char b = CHR ''D''" "upper_char c = CHR ''F''"
    by (auto simp: py_upper_def map_eq_Cons_conv)
  then show "is_pdf_mime m"
    by (auto simp: upper_char_cases is_pdf_mime_def)
next
  assume "is_pdf_mime m"
  then show "py_upper m = ''PDF''"
    by (auto simp: is_pdf_mime_def py_upper_def upper_char_def)
qed

lemma scan_options_find:
  "\<forall>opt\<in>set opts. entry_ok opt \<Longrightarrow>
   scan_options opts =
     Inr (case find pdf_entry opts of
            None \<Rightarrow> JNull
          | Some opt \<Rightarrow> (case member opt ''downloadUrl'' of None \<Rightarrow> JNull | Some u \<Rightarrow> u))"
proof (induction opts)
  case Nil
  then show ?case by simp
next
  case (Cons opt opts)
  from Cons.prems obtain kvs where opt: "opt = JObj kvs"
    by (auto simp: entry_ok_def split: json.splits)
  from Cons.prems have rest: "\<forall>x\<in>set opts. entry_ok x" by simp
  show ?case
  proof (cases "map_of (rev kvs) ''mimeTypeIdentifier''")
    case None
    then have "\<not> pdf_entry opt"
      by (simp add: pdf_entry_def member_def opt)
    moreover have "py_upper [] \<noteq> ''PDF''"
      by (simp add: py_upper_def)
    ultimately show ?thesis
      using None Cons.IH [OF rest] by (simp add: opt py_get_def)
  next
    case (Some m)
    with Cons.prems obtain ms where m: "m = JStr ms"
      by (auto simp: entry_ok_def opt split: json.splits)
    show ?thesis
    proof (cases "is_pdf_mime ms")
      case True
      then have "pdf_entry opt"
        by (simp add: pdf_entry_def member_def opt Some m)
      then show ?thesis
        using True Some m
        by (simp add: opt py_get_def py_upper_pdf member_def split: option.splits)
    next
      case False
      then have "\<not> pdf_entry opt"
        by (simp add: pdf_entry_def member_def opt Some m)
      then show ?thesis
        using False Some m Cons.IH [OF rest]
        by (simp add: opt py_get_def py_upper_pdf)
    qed
  qed
qed

text \<open>
  Claim C5. For a record that is a dict whose \<open>downloadOptionBag\<close> is a list of
  well-formed entries (or is absent), the URL is the \<open>downloadUrl\<close> of the first entry
  whose MIME type is \<open>PDF\<close> in any capitalisation; when no entry is one, it is the
  top-level \<open>downloadUrl\<close> of the record; when the record has none either, it is the
  list URL followed by a slash and the document identifier.
\<close>

theorem official_url_preference:
  "(\<exists>kvs. doc = JObj kvs) \<and>
   (member doc ''downloadOptionBag'' = Some (JArr opts)
      \<or> member doc ''downloadOptionBag'' = None \<and> opts = []) \<and>
   (\<forall>opt\<in>set opts. entry_ok opt) \<longrightarrow>
     (\<forall>opt u. find pdf_entry opts = Some opt \<and> member opt ''downloadUrl'' = Some u \<and> py_truthy u
        \<longrightarrow> official_url e list_url doc doc_id = Inr u)
   \<and> (\<forall>v. find pdf_entry opts = None \<and> member doc ''downloadUrl'' = Some v
        \<longrightarrow> official_url e list_url doc doc_id = Inr v)
   \<and> (find pdf_entry opts = None \<and> member doc ''downloadUrl'' = None
        \<longrightarrow> official_url e list_url doc doc_id
              = Inr (JStr (list_url @ ''/'' @ py_str (py_repr e) doc_id)))"
proof (intro impI)
  assume a: "(\<exists>kvs. doc = JObj kvs) \<and>
   (member doc ''downloadOptionBag'' = Some (JArr opts)
      \<or> member doc ''downloadOptionBag'' = None \<and> opts = []) \<and>
   (\<forall>opt\<in>set opts. entry_ok opt)"
  then obtain kvs where doc: "doc = JObj kvs" by blast
  from a have ok: "\<forall>opt\<in>set opts. entry_ok opt" by blast
  from a doc have bag: "py_get doc ''downloadOptionBag'' (JArr []) = Inr (JArr opts)"
    by (auto simp: py_get_def member_def)
  have url: "official_url e list_url doc doc_id =
     (case scan_options opts of
        Inl x \<Rightarrow> Inl x
      | Inr u \<Rightarrow>
          if \<not> py_truthy u
          then py_get doc ''downloadUrl'' (JStr (list_url @ ''/'' @ py_str (py_repr e) doc_id))
          else Inr u)"
    by (simp add: official_url_def bag py_iter_def)
  show "(\<forall>opt u. find pdf_entry opts = Some opt \<and> member opt ''downloadUrl'' = Some u \<and> py_truthy u
        \<longrightarrow> official_url e list_url doc doc_id = Inr u)
   \<and> (\<forall>v. find pdf_entry opts = None \<and> member doc ''downloadUrl'' = Some v
        \<longrightarrow> official_url e list_url doc doc_id = Inr v)
   \<and> (find pdf_entry opts = None \<and> member doc ''downloadUrl'' = None
        \<longrightarrow> official_url e list_url doc doc_id
              = Inr (JStr (list_url @ ''/'' @ py_str (py_repr e) doc_id)))"
    unfolding url scan_options_find [OF ok]
    using doc by (auto simp: py_truthy_def py_get_def member_def)
qed

theorem official_url_preference_witness:
  "official_url env_redirect (list_url_of ''17123456'') doc1 (JStr ''D1'')
     = Inr (JStr ''https://api.example/doc1'')
   \<and> official_url env_redirect (list_url_of ''17123456'') doc2 (JStr ''D2'')
     = Inr (JStr ''https://api.example/doc2'')
   \<and> official_url env_redirect (list_url_of ''17123456'') doc3 (JStr ''D3'')
     = Inr (JStr ''https://api.uspto.gov/api/v1/patent/applications/17123456/documents/D3'')"
proof -
  let ?o1 = "JObj [(''mimeTypeIdentifier'', JStr ''PDF''),
                   (''downloadUrl'', JStr ''https://api.example/doc1'')]"
  let ?x = "JObj [(''mimeTypeIdentifier'', JStr ''XML''),
                   (''downloadUrl'', JStr ''https://api.example/doc2.xml'')]"
  have h1: "(\<exists>kvs. doc1 = JObj kvs) \<and>
      (member doc1 ''downloadOptionBag'' = Some (JArr [?o1])
        \<or> member doc1 ''downloadOptionBag'' = None \<and> [?o1] = []) \<and>
      (\<forall>opt\<in>set [?o1]. entry_ok opt)"
    by (simp add: doc1_def member_def entry_ok_def)
  have f1: "find pdf_entry [?o1] = Some ?o1
      \<and> member ?o1 ''downloadUrl'' = Some (JStr ''https://api.example/doc1'')
      \<and> py_truthy (JStr ''https://api.example/doc1'')"
    by (simp add: pdf_entry_def member_def is_pdf_mime_def py_truthy_def)
  from official_url_preference [of doc1 "[?o1]" env_redirect "list_url_of ''17123456''" "JStr ''D1''"] h1 f1
  have c1: "official_url env_redirect (list_url_of ''17123456'') doc1 (JStr ''D1'')
     = Inr (JStr ''https://api.example/doc1'')"
    by blast
  have h2: "(\<exists>kvs. doc2 = JObj kvs) \<and>
      (member doc2 ''downloadOptionBag'' = Some (JArr [?x])
        \<or> member doc2 ''downloadOptionBag'' = None \<and> [?x] = []) \<and>
      (\<forall>opt\<in>set [?x]. entry_ok opt)"
    by (simp add: doc2_def member_def entry_ok_def)
  have f2: "find pdf_entry [?x] = None
      \<and> member doc2 ''downloadUrl'' = Some (JStr ''https://api.example/doc2'')"
    by (simp add: pdf_entry_def member_def is_pdf_mime_def doc2_def)
  from official_url_preference [of doc2 "[?x]" env_redirect "list_url_of ''17123456''" "JStr ''D2''"] h2 f2
  have c2: "official_url env_redirect (list_url_of ''17123456'') doc2 (JStr ''D2'')
     = Inr (JStr ''https://api.example/doc2'')"
    by blast
  have h3: "(\<exists>kvs. doc3 = JObj kvs) \<and>
      (member doc3 ''downloadOptionBag'' = Some (JArr [])
        \<or> member doc3 ''downloadOptionBag'' = None \<and> [] = ([]::json list)) \<and>
      (\<forall>opt\<in>set []. entry_ok opt)"
    by (simp add: doc3_def member_def)
  have f3: "find pdf_entry [] = None \<and> member doc3 ''downloadUrl'' = None"
    by (simp add: member_def doc3_def)
  from official_url_preference [of doc3 "[]" env_redirect "list_url_of ''17123456''" "JStr ''D3''"] h3 f3
  have c3: "official_url env_redirect (list_url_of ''17123456'') doc3 (JStr ''D3'')
     = Inr (JStr (list_url_of ''17123456'' @ ''/'' @ py_str (py_repr env_redirect) (JStr ''D3'')))"
    by blast
  from c1 c2 c3 show ?thesis
    by (simp add: list_url_of_def py_str_def)
qed

subsection \<open>The pattern of the redirect resolver\<close>

lemma lines_of_step:
  "lines_of s =
     takeWhile (\<lambda>c. c \<noteq> CHR 0x0A) s
     # (case dropWhile (\<lambda>c. c \<noteq> CHR 0x0A) s of [] \<Rightarrow> [] | c # rest \<Rightarrow> lines_of rest)"
  by (induction s) auto

lemma re_search_skip_line:
  "re_search_from False s =
     (case dropWhile (\<lambda>c. c \<noteq> CHR 0x0A) s of
        [] \<Rightarrow> None
      | c # rest \<Rightarrow> re_search_from True rest)"
  by (induction s) auto

lemma match_location_Nil: "match_location [] = None"
  by (simp add: match_location_def)

lemma re_search_line_start:
  "re_search_from True s =
     (case match_location s of
        Some g \<Rightarrow> Some g
      | None \<Rightarrow>
          (case dropWhile (\<lambda>c. c \<noteq> CHR 0x0A) s of
             [] \<Rightarrow> None
           | c # rest \<Rightarrow> re_search_from True rest))"
proof (cases s)
  case Nil
  then show ?thesis by (simp add: match_location_Nil)
next
  case (Cons c cs)
  then show ?thesis
    by (cases "c = CHR 0x0A") (simp_all add: re_search_skip_line split: option.splits)
qed

lemma take_takeWhile_eq:
  "length name = n \<Longrightarrow> \<forall>c\<in>set name. P c \<Longrightarrow>
   (take n (takeWhile P s) = name) = (take n s = name)"
proof (induction name arbitrary: s n)
  case Nil
  then show ?case by simp
next
  case (Cons a name)
  then obtain m where n: "n = Suc m" and m: "length name = m" by auto
  show ?case
  proof (cases s)
    case Nil
    then show ?thesis by (simp add: n)
  next
    case (Cons c cs)
    with Cons.prems Cons.IH [of m cs] m show ?thesis by (auto simp: n)
  qed
qed

lemma location_line_first:
  "location_line (takeWhile (\<lambda>c. c \<noteq> CHR 0x0A) s) = location_line s"
proof -
  have a: "\<forall>c\<in>set ''Location:''. c \<noteq> CHR 0x0A" by simp
  have b: "\<forall>c\<in>set ''location:''. c \<noteq> CHR 0x0A" by simp
  have la: "length ''Location:'' = 9" by simp
  have lb: "length ''location:'' = 9" by simp
  from take_takeWhile_eq [OF la a, of s] take_takeWhile_eq [OF lb b, of s]
  show ?thesis by (simp only: location_line_def)
qed

lemma match_location_none:
  "\<not> location_line (takeWhile (\<lambda>c. c \<noteq> CHR 0x0A) s) \<Longrightarrow> match_location s = None"
  by (simp add: location_line_first) (simp add: location_line_def match_location_def)

lemma opt_cr_eol_dropWhile: "opt_cr_eol (dropWhile (\<lambda>c. c \<noteq> CHR 0x0A) t)"
proof (cases "dropWhile (\<lambda>c. c \<noteq> CHR 0x0A) t")
  case Nil
  show ?thesis unfolding Nil by (simp add: opt_cr_eol_def)
next
  case (Cons c cs)
  from hd_dropWhile [of "\<lambda>c. c \<noteq> CHR 0x0A" t] Cons have "c = CHR 0x0A" by simp
  then show ?thesis unfolding Cons by (simp add: opt_cr_eol_def at_eol_def)
qed

lemma group_from_line:
  assumes "t \<noteq> []" and "hd t \<noteq> CHR 0x0A"
  shows "group_from t = Some (takeWhile (\<lambda>c. c \<noteq> CHR 0x0A) t)"
proof -
  let ?P = "\<lambda>c. c \<noteq> CHR 0x0A"
  from assms obtain c cs where t: "t = c # cs" and c: "c \<noteq> CHR 0x0A"
    by (cases t) auto
  then obtain m where m: "length (takeWhile ?P t) = Suc m" by simp
  have "drop (Suc m) t = dropWhile ?P t"
    using m by (simp add: dropWhile_eq_drop)
  moreover have "take (Suc m) t = takeWhile ?P t"
    by (metis m takeWhile_eq_take)
  ultimately show ?thesis
    using m opt_cr_eol_dropWhile [of t] by (simp add: group_from_def)
qed

lemma ws_star_first: "group_from (drop k r) = Some g \<Longrightarrow> ws_star k r = Some g"
  by (cases k) simp_all

lemma py_strip_nonempty: "py_strip x \<noteq> [] \<Longrightarrow> dropWhile py_isspace x \<noteq> []"
  by (cases "dropWhile py_isspace x = []") (simp_all add: py_strip_def del: dropWhile_eq_Nil_conv)

lemma py_strip_dropWhile: "py_strip (dropWhile py_isspace x) = py_strip x"
  by (simp add: py_strip_def)

lemma takeWhile_line_tail:
  assumes "\<forall>x\<in>set a. x \<noteq> CHR 0x0A"
  shows "takeWhile (\<lambda>c. c \<noteq> CHR 0x0A) (a @ dropWhile (\<lambda>c. c \<noteq> CHR 0x0A) s) = a"
proof (cases "dropWhile (\<lambda>c. c \<noteq> CHR 0x0A) s")
  case Nil
  show ?thesis unfolding Nil using assms by simp
next
  case (Cons c cs)
  from hd_dropWhile [of "\<lambda>c. c \<noteq> CHR 0x0A" s] Cons have "c = CHR 0x0A" by simp
  then show ?thesis unfolding Cons using assms by (simp add: takeWhile_tail)
qed

lemma match_location_some:
  assumes line: "location_line (takeWhile (\<lambda>c. c \<noteq> CHR 0x0A) s)"
    and val: "py_strip (drop 9 (takeWhile (\<lambda>c. c \<noteq> CHR 0x0A) s)) \<noteq> []"
  shows "match_location s
           = Some (dropWhile py_isspace (drop 9 (takeWhile (\<lambda>c. c \<noteq> CHR 0x0A) s)))"
proof -
  let ?P = "\<lambda>c. c \<noteq> CHR 0x0A"
  let ?l = "takeWhile ?P s"
  let ?d = "dropWhile ?P s"
  let ?v = "drop 9 ?l"
  let ?t = "dropWhile py_isspace ?v"
  from line have len: "9 \<le> length ?l"
    by (auto simp: location_line_def dest: arg_cong [where f = length])
  have r: "drop 9 s = ?v @ ?d"
    using len drop_append [of 9 ?l ?d] by simp
  from val have tne: "?t \<noteq> []" by (rule py_strip_nonempty)
  then obtain y where y: "y \<in> set ?v" "\<not> py_isspace y"
    by (auto simp: dropWhile_eq_Nil_conv)
  have tw: "takeWhile py_isspace (?v @ ?d) = takeWhile py_isspace ?v"
    using y by (simp add: takeWhile_append1)
  have dw: "dropWhile py_isspace (?v @ ?d) = ?t @ ?d"
    using y by (simp add: dropWhile_append1)
  have k: "drop (length (takeWhile py_isspace (drop 9 s))) (drop 9 s) = ?t @ ?d"
    using dw by (simp add: r dropWhile_eq_drop)
  have hdt: "\<not> py_isspace (hd ?t)"
    using tne by (rule hd_dropWhile)
  then have hd_lf: "hd (?t @ ?d) \<noteq> CHR 0x0A"
    using tne by (auto simp: py_isspace_def)
  have all: "\<forall>x\<in>set ?t. x \<noteq> CHR 0x0A"
  proof
    fix x assume "x \<in> set ?t"
    then have "x \<in> set ?l" by (meson in_set_dropD set_dropWhileD)
    then show "x \<noteq> CHR 0x0A" by (rule set_takeWhileD [THEN conjunct2])
  qed
  have "group_from (?t @ ?d) = Some (takeWhile ?P (?t @ ?d))"
    using tne hd_lf by (intro group_from_line) simp_all
  also have "takeWhile ?P (?t @ ?d) = ?t"
    using all by (rule takeWhile_line_tail)
  finally have "group_from (drop (length (takeWhile py_isspace (drop 9 s))) (drop 9 s)) = Some ?t"
    by (simp only: k)
  then have "ws_star (length (takeWhile py_isspace (drop 9 s))) (drop 9 s) = Some ?t"
    by (rule ws_star_first)
  moreover from line have "location_line s" by (simp add: location_line_first)
  ultimately show ?thesis
    by (simp add: match_location_def location_line_def)
qed

lemma re_search_first_line:
  "(\<forall>l. find location_line (lines_of s) = Some l \<and> py_strip (drop 9 l) \<noteq> []
        \<longrightarrow> re_search_from True s = Some (dropWhile py_isspace (drop 9 l)))
   \<and> (find location_line (lines_of s) = None \<longrightarrow> re_search_from True s = None)"
proof (induction "length s" arbitrary: s rule: less_induct)
  case less
  let ?P = "\<lambda>c. c \<noteq> CHR 0x0A"
  show ?case
  proof (cases "location_line (takeWhile ?P s)")
    case True
    then have "find location_line (lines_of s) = Some (takeWhile ?P s)"
      by (subst lines_of_step) simp
    then show ?thesis
      using True by (auto simp: match_location_some re_search_line_start [of s])
  next
    case False
    then have m: "match_location s = None" by (rule match_location_none)
    show ?thesis
    proof (cases "dropWhile ?P s")
      case Nil
      then have "lines_of s = [takeWhile ?P s]"
        by (subst lines_of_step) (simp del: dropWhile_eq_Nil_conv)
      with False m Nil show ?thesis
        by (simp add: re_search_line_start [of s] del: dropWhile_eq_Nil_conv)
    next
      case (Cons c rest)
      have "length (dropWhile ?P s) \<le> length s" by (rule length_dropWhile_le)
      with Cons have "length rest < length s" by simp
      note ih = less [OF this]
      from Cons have "lines_of s = takeWhile ?P s # lines_of rest"
        by (subst lines_of_step) simp
      with False m Cons ih show ?thesis
        by (simp add: re_search_line_start [of s])
    qed
  qed
qed

text \<open>
  Claim C8, as the code has it. The pattern \<open>^[Ll]ocation:\<close> accepts the field name
  in two spellings only, \<open>Location:\<close> and \<open>location:\<close>, at the start of a line. When
  the first such line of the header block has a value, the resolver returns that value
  with the whitespace at both ends removed; when no line starts with one of the two
  spellings, it returns nothing.
\<close>

theorem location_of_first_line:
  "(\<forall>l. find location_line (lines_of content) = Some l \<and> py_strip (drop 9 l) \<noteq> []
        \<longrightarrow> location_of content = Some (py_strip (drop 9 l)))
   \<and> (find location_line (lines_of content) = None \<longrightarrow> location_of content = None)"
  using re_search_first_line [of content]
  by (auto simp: location_of_def re_search_location_def py_strip_dropWhile)

theorem location_of_first_line_witness:
  "location_of (universal_newlines
       (''HTTP/1.1 302 Found'' @ crlf @ ''location:  https://s3.example/doc1.pdf '' @ crlf
        @ ''Server: x'' @ crlf @ crlf))
     = Some ''https://s3.example/doc1.pdf''
   \<and> location_of (universal_newlines (''HTTP/1.1 200 OK'' @ crlf @ ''X-Location: a'' @ crlf @ crlf))
     = None"
proof -
  let ?c1 = "universal_newlines
       (''HTTP/1.1 302 Found'' @ crlf @ ''location:  https://s3.example/doc1.pdf '' @ crlf
        @ ''Server: x'' @ crlf @ crlf)"
  let ?c2 = "universal_newlines (''HTTP/1.1 200 OK'' @ crlf @ ''X-Location: a'' @ crlf @ crlf)"
  have h1: "find location_line (lines_of ?c1) = Some ''location:  https://s3.example/doc1.pdf ''
      \<and> py_strip (drop 9 ''location:  https://s3.example/doc1.pdf '') \<noteq> []"
    by (simp add: crlf_def location_line_def py_strip_def py_isspace_def)
  have h2: "find location_line (lines_of ?c2) = None"
    by (simp add: crlf_def location_line_def)
  from location_of_first_line [of ?c1] h1
  have "location_of ?c1 = Some (py_strip (drop 9 ''location:  https://s3.example/doc1.pdf ''))"
    by blast
  then have c1: "location_of ?c1 = Some ''https://s3.example/doc1.pdf''"
    by (simp add: py_strip_def py_isspace_def)
  from location_of_first_line [of ?c2] h2 have c2: "location_of ?c2 = None"
    by blast
  from c1 c2 show ?thesis by simp
qed

text \<open>
  The claim as the specification words it fails: a header block whose redirect field
  is spelled \<open>LOCATION:\<close> gives nothing, in the parser and in the resolver that runs
  \<open>curl\<close> against such a server.
\<close>

theorem location_capitals_counterexample:
  "location_of (universal_newlines
       (''HTTP/1.1 302 Found'' @ crlf @ ''LOCATION: https://s3.example/doc1.pdf'' @ crlf @ crlf))
     = None
   \<and> map_sum fst fst
        (get_redirect_url env_capitals (JStr ''https://api.example/doc1'') ''KEY''
           ''/out/temp_headers_debug.txt'' start)
     = Inr None"
  by (simp add: location_of_def re_search_location_def match_location_def crlf_def
        get_redirect_url_def env_capitals_def start_def empty_disk_def os_path_exists_def
        probe_cmd_def table_curl_def write_file_def open_read_text_def)

subsection \<open>One document\<close>

lemma verify_pdf_bool: "verify_pdf fs p = Inr (verify_pdf fs p = Inr True)"
  by (auto simp: verify_pdf_def os_path_exists_def os_path_getsize_def open_read_def
           split: option.splits node.splits sum.splits)

lemma download_final_JStr:
  "download_final e (JStr u) filepath use_key api_key s =
     (case run_curl e (download_cmd filepath use_key api_key u) (disk s) of
        None \<Rightarrow>
          (False, s\<lparr>requests := requests s @ [Curl (download_cmd filepath use_key api_key u) None]\<rparr>)
      | Some (rc, fs') \<Rightarrow>
          (rc = 0, s\<lparr>requests := requests s @ [Curl (download_cmd filepath use_key api_key u) (Some rc)],
                     disk := fs'\<rparr>))"
  by (simp add: download_final_def Let_def split: option.splits)

lemma count_if_valid_Inr:
  "count_if_valid filepath (ok, s) =
     Inr (if ok \<and> verify_pdf (disk s) filepath = Inr True
          then s\<lparr>success_count := success_count s + 1\<rparr> else s)"
  using verify_pdf_bool [of "disk s" filepath]
  by (cases "verify_pdf (disk s) filepath") (auto simp: count_if_valid_def)

lemma get_redirect_url_requests:
  assumes "get_redirect_url e (JStr u) api_key temp_header_file s = Inr (r, s1)"
  shows "\<exists>rc. requests s1 = requests s @ [Curl (probe_cmd temp_header_file api_key u) rc]"
  using assms
  by (auto simp: get_redirect_url_def Let_def split: sum.splits option.splits if_splits)

lemma fetch_doc_unfold:
  assumes "official_url e list_url doc doc_id = Inr url"
    and "get_redirect_url e url api_key temp_header_file s = Inr (r, s1)"
  shows "fetch_doc e api_key temp_header_file list_url doc doc_id filepath s =
     count_if_valid filepath
       (if redirect_found r then download_final e (JStr (the r)) filepath False [] s1
        else download_final e url filepath True api_key s1)"
  using assms by (cases r) (simp_all add: fetch_doc_def redirect_found_def)

text \<open>
  Claim C1. The resolved URL \<open>u\<close> is probed with the key. When the probe returns a
  value (a string that is not empty, as \<open>if s3_url\<close> tests), the one download command
  that follows goes to that value and has no \<open>X-API-KEY\<close> header; when the probe
  returns nothing, the download command goes to \<open>u\<close> and carries the header with the
  key. Inside \<open>run_process\<close> the key is never empty.
\<close>

theorem redirect_branching:
  "api_key \<noteq> [] \<and> official_url e list_url doc doc_id = Inr (JStr u)
   \<and> get_redirect_url e (JStr u) api_key temp_header_file s = Inr (r, s1) \<longrightarrow>
     (\<exists>rc. requests s1 = requests s @ [Curl (probe_cmd temp_header_file api_key u) rc])
   \<and> (\<forall>v. r = Some v \<and> v \<noteq> [] \<longrightarrow>
         (\<exists>s' rc. fetch_doc e api_key temp_header_file list_url doc doc_id filepath s = Inr s'
            \<and> requests s' = requests s1 @
                 [Curl [''curl'', ''-L'', ''-s'', ''-o'', filepath, ''-H'', user_agent,
                        ''--max-time'', ''120'', ''--retry'', ''2'', v] rc]))
   \<and> (r = None \<or> r = Some [] \<longrightarrow>
         (\<exists>s' rc. fetch_doc e api_key temp_header_file list_url doc doc_id filepath s = Inr s'
            \<and> requests s' = requests s1 @
                 [Curl [''curl'', ''-L'', ''-s'', ''-o'', filepath, ''-H'', user_agent,
                        ''--max-time'', ''120'', ''--retry'', ''2'',
                        ''-H'', ''X-API-KEY: '' @ api_key, u] rc]))"
proof (intro impI)
  assume a: "api_key \<noteq> [] \<and> official_url e list_url doc doc_id = Inr (JStr u)
   \<and> get_redirect_url e (JStr u) api_key temp_header_file s = Inr (r, s1)"
  then have key: "api_key \<noteq> []"
    and url: "official_url e list_url doc doc_id = Inr (JStr u)"
    and probe: "get_redirect_url e (JStr u) api_key temp_header_file s = Inr (r, s1)"
    by simp_all
  note f = fetch_doc_unfold [OF url probe, of filepath]
  have p1: "\<exists>rc. requests s1 = requests s @ [Curl (probe_cmd temp_header_file api_key u) rc]"
    using probe by (rule get_redirect_url_requests)
  have p2: "\<exists>s' rc. fetch_doc e api_key temp_header_file list_url doc doc_id filepath s = Inr s'
            \<and> requests s' = requests s1 @
                 [Curl [''curl'', ''-L'', ''-s'', ''-o'', filepath, ''-H'', user_agent,
                        ''--max-time'', ''120'', ''--retry'', ''2'', v] rc]"
    if "r = Some v" "v \<noteq> []" for v
    using that
    by (cases "run_curl e (download_cmd filepath False [] v) (disk s1)")
       (auto simp: f redirect_found_def download_final_JStr count_if_valid_Inr download_cmd_def)
  have p3: "\<exists>s' rc. fetch_doc e api_key temp_header_file list_url doc doc_id filepath s = Inr s'
            \<and> requests s' = requests s1 @
                 [Curl [''curl'', ''-L'', ''-s'', ''-o'', filepath, ''-H'', user_agent,
                        ''--max-time'', ''120'', ''--retry'', ''2'',
                        ''-H'', ''X-API-KEY: '' @ api_key, u] rc]"
    if "r = None \<or> r = Some []"
    using that key
    by (cases "run_curl e (download_cmd filepath True api_key u) (disk s1)")
       (auto simp: f redirect_found_def download_final_JStr count_if_valid_Inr download_cmd_def)
  from p1 p2 p3
  show "(\<exists>rc. requests s1 = requests s @ [Curl (probe_cmd temp_header_file api_key u) rc])
   \<and> (\<forall>v. r = Some v \<and> v \<noteq> [] \<longrightarrow>
         (\<exists>s' rc. fetch_doc e api_key temp_header_file list_url doc doc_id filepath s = Inr s'
            \<and> requests s' = requests s1 @
                 [Curl [''curl'', ''-L'', ''-s'', ''-o'', filepath, ''-H'', user_agent,
                        ''--max-time'', ''120'', ''--retry'', ''2'', v] rc]))
   \<and> (r = None \<or> r = Some [] \<longrightarrow>
         (\<exists>s' rc. fetch_doc e api_key temp_header_file list_url doc doc_id filepath s = Inr s'
            \<and> requests s' = requests s1 @
                 [Curl [''curl'', ''-L'', ''-s'', ''-o'', filepath, ''-H'', user_agent,
                        ''--max-time'', ''120'', ''--retry'', ''2'',
                        ''-H'', ''X-API-KEY: '' @ api_key, u] rc]))"
    by blast
qed

lemma projr_pair: "map_sum f fst x = Inr a \<Longrightarrow> x = Inr (a, snd (projr x))"
  by (cases x) auto

theorem redirect_branching_witness:
  "(\<exists>s' rc. fetch_doc (serve [doc1]) ''KEY'' out_temp (list_url_of ''17123456'') doc1 (JStr ''D1'')
               target1 start = Inr s'
      \<and> last (requests s') =
          Curl [''curl'', ''-L'', ''-s'', ''-o'', target1, ''-H'', user_agent,
                ''--max-time'', ''120'', ''--retry'', ''2'', ''https://s3.example/doc1.pdf''] rc)
   \<and> (\<exists>s' rc. fetch_doc (serve [doc2]) ''KEY'' out_temp (list_url_of ''17123456'') doc2 (JStr ''D2'')
               ''/out/App_17123456/17123456_2023-05-02_CLM_D2.pdf'' start = Inr s'
      \<and> last (requests s') =
          Curl [''curl'', ''-L'', ''-s'', ''-o'', ''/out/App_17123456/17123456_2023-05-02_CLM_D2.pdf'',
                ''-H'', user_agent, ''--max-time'', ''120'', ''--retry'', ''2'',
                ''-H'', ''X-API-KEY: KEY'', ''https://api.example/doc2''] rc)"
proof -
  let ?L = "list_url_of ''17123456''"
  let ?p1 = "get_redirect_url (serve [doc1]) (JStr ''https://api.example/doc1'') ''KEY'' out_temp start"
  let ?p2 = "get_redirect_url (serve [doc2]) (JStr ''https://api.example/doc2'') ''KEY'' out_temp start"
  have u1: "official_url (serve [doc1]) ?L doc1 (JStr ''D1'') = Inr (JStr ''https://api.example/doc1'')"
    by (simp add: official_url_def doc1_def py_get_def py_iter_def py_upper_def upper_char_def
          py_truthy_def)
  have "map_sum fst fst ?p1 = Inr (Some ''https://s3.example/doc1.pdf'')"
    by (simp add: get_redirect_url_def serve_def start_def empty_disk_def os_path_exists_def
          out_temp_def probe_cmd_def table_curl_def web_def write_file_def open_read_text_def
          crlf_def location_of_def re_search_location_def match_location_def group_from_def
          opt_cr_eol_def at_eol_def py_isspace_def py_strip_def)
  then have g1: "?p1 = Inr (Some ''https://s3.example/doc1.pdf'', snd (projr ?p1))"
    by (rule projr_pair)
  have k: "''KEY'' \<noteq> []" by simp
  from redirect_branching [of "''KEY''" "serve [doc1]" ?L doc1 "JStr ''D1''"
      "''https://api.example/doc1''" out_temp start "Some ''https://s3.example/doc1.pdf''"
      "snd (projr ?p1)" target1] k u1 g1
  have c1: "\<exists>s' rc. fetch_doc (serve [doc1]) ''KEY'' out_temp ?L doc1 (JStr ''D1'') target1 start = Inr s'
      \<and> last (requests s') =
          Curl [''curl'', ''-L'', ''-s'', ''-o'', target1, ''-H'', user_agent,
                ''--max-time'', ''120'', ''--retry'', ''2'', ''https://s3.example/doc1.pdf''] rc"
    by force
  have u2: "official_url (serve [doc2]) ?L doc2 (JStr ''D2'') = Inr (JStr ''https://api.example/doc2'')"
    by (simp add: official_url_def doc2_def py_get_def py_iter_def py_upper_def upper_char_def
          py_truthy_def)
  have "map_sum fst fst ?p2 = Inr None"
    by (simp add: get_redirect_url_def serve_def start_def empty_disk_def os_path_exists_def
          out_temp_def probe_cmd_def table_curl_def web_def write_file_def open_read_text_def
          crlf_def location_of_def re_search_location_def match_location_def)
  then have g2: "?p2 = Inr (None, snd (projr ?p2))"
    by (rule projr_pair)
  from redirect_branching [of "''KEY''" "serve [doc2]" ?L doc2 "JStr ''D2''"
      "''https://api.example/doc2''" out_temp start None
      "snd (projr ?p2)" "''/out/App_17123456/17123456_2023-05-02_CLM_D2.pdf''"] k u2 g2
  have c2: "\<exists>s' rc. fetch_doc (serve [doc2]) ''KEY'' out_temp ?L doc2 (JStr ''D2'')
               ''/out/App_17123456/17123456_2023-05-02_CLM_D2.pdf'' start = Inr s'
      \<and> last (requests s') =
          Curl [''curl'', ''-L'', ''-s'', ''-o'', ''/out/App_17123456/17123456_2023-05-02_CLM_D2.pdf'',
                ''-H'', user_agent, ''--max-time'', ''120'', ''--retry'', ''2'',
                ''-H'', ''X-API-KEY: KEY'', ''https://api.example/doc2''] rc"
    by force
  from c1 c2 show ?thesis by blast
qed

text \<open>
  Claim C3. For a record whose target file exists: when the file validates, the
  iteration ends there, the state (disk, requests, counters) being what it was; when it
  does not validate, the file is removed and the fetch runs on the disk without it; an
  exception of \<open>os.remove\<close> is dropped, and the fetch then runs on the disk as it was.
\<close>

theorem existing_target_policy:
  "doc_target e app_num app_folder doc = Inr (doc_id, filepath)
   \<and> os_path_exists (disk s) filepath \<longrightarrow>
     (verify_pdf (disk s) filepath = Inr True \<longrightarrow>
        process_doc e api_key temp_header_file app_num app_folder list_url doc s = Inr s)
   \<and> (verify_pdf (disk s) filepath = Inr False \<longrightarrow>
        process_doc e api_key temp_header_file app_num app_folder list_url doc s
          = fetch_doc e api_key temp_header_file list_url doc doc_id filepath
              (s\<lparr>disk := remove_quietly (disk s) filepath\<rparr>)
        \<and> (\<forall>fs'. os_remove (disk s) filepath = Inr fs' \<longrightarrow>
              remove_quietly (disk s) filepath = fs' \<and> \<not> os_path_exists fs' filepath)
        \<and> (\<forall>x. os_remove (disk s) filepath = Inl x \<longrightarrow>
              remove_quietly (disk s) filepath = disk s))"
  by (auto simp: process_doc_def remove_quietly_def os_remove_def os_path_exists_def
           split: option.splits node.splits if_splits)

theorem existing_target_policy_witness:
  "process_doc (serve [doc1]) ''KEY'' out_temp ''17123456'' out_folder (list_url_of ''17123456'')
       doc1 (state_with target1 (File pdf_bytes))
     = Inr (state_with target1 (File pdf_bytes))
   \<and> process_doc (serve [doc1]) ''KEY'' out_temp ''17123456'' out_folder (list_url_of ''17123456'')
       doc1 (state_with target1 (File html_bytes))
     = fetch_doc (serve [doc1]) ''KEY'' out_temp (list_url_of ''17123456'') doc1 (JStr ''D1'') target1
         ((state_with target1 (File html_bytes))
            \<lparr>disk := remove_quietly (disk (state_with target1 (File html_bytes))) target1\<rparr>)
   \<and> \<not> os_path_exists (remove_quietly (disk (state_with target1 (File html_bytes))) target1) target1
   \<and> remove_quietly (disk (state_with target1 Dir)) target1 = disk (state_with target1 Dir)"
proof -
  let ?e = "serve [doc1]"
  let ?L = "list_url_of ''17123456''"
  have t: "doc_target ?e ''17123456'' out_folder doc1 = Inr (JStr ''D1'', target1)"
    by (simp add: doc_target_def doc1_def py_get_def split_first_def py_str_def os_path_join_def
          out_folder_def target1_def)
  have x: "os_path_exists (disk (state_with target1 n)) target1" for n
    by (simp add: state_with_def os_path_exists_def)
  have v1: "verify_pdf (disk (state_with target1 (File pdf_bytes))) target1 = Inr True"
    by (simp add: verify_pdf_def state_with_def os_path_exists_def os_path_getsize_def
          open_read_def start_def empty_disk_def pdf_bytes_def)
  have v2: "verify_pdf (disk (state_with target1 (File html_bytes))) target1 = Inr False"
    by (simp add: verify_pdf_def state_with_def os_path_exists_def os_path_getsize_def
          open_read_def start_def empty_disk_def html_bytes_def)
  have r2: "os_remove (disk (state_with target1 (File html_bytes))) target1
      = Inr (remove_quietly (disk (state_with target1 (File html_bytes))) target1)"
    by (simp add: os_remove_def remove_quietly_def state_with_def start_def empty_disk_def)
  have v3: "verify_pdf (disk (state_with target1 Dir)) target1 = Inr False"
    by (simp add: verify_pdf_def state_with_def os_path_exists_def os_path_getsize_def
          open_read_def start_def empty_disk_def)
  have r3: "os_remove (disk (state_with target1 Dir)) target1 = Inl OSError"
    by (simp add: os_remove_def state_with_def)
  from existing_target_policy [of ?e "''17123456''" out_folder doc1 "JStr ''D1''" target1
      "state_with target1 (File pdf_bytes)" "''KEY''" out_temp ?L] t x v1
  have c1: "process_doc ?e ''KEY'' out_temp ''17123456'' out_folder ?L doc1
       (state_with target1 (File pdf_bytes)) = Inr (state_with target1 (File pdf_bytes))"
    by blast
  from existing_target_policy [of ?e "''17123456''" out_folder doc1 "JStr ''D1''" target1
      "state_with target1 (File html_bytes)" "''KEY''" out_temp ?L] t x v2 r2
  have c2: "process_doc ?e ''KEY'' out_temp ''17123456'' out_folder ?L doc1
       (state_with target1 (File html_bytes))
     = fetch_doc ?e ''KEY'' out_temp ?L doc1 (JStr ''D1'') target1
         ((state_with target1 (File html_bytes))
            \<lparr>disk := remove_quietly (disk (state_with target1 (File html_bytes))) target1\<rparr>)"
    and c3: "\<not> os_path_exists (remove_quietly (disk (state_with target1 (File html_bytes))) target1) target1"
    by blast+
  from existing_target_policy [of ?e "''17123456''" out_folder doc1 "JStr ''D1''" target1
      "state_with target1 Dir" "''KEY''" out_temp ?L] t x v3 r3
  have c4: "remove_quietly (disk (state_with target1 Dir)) target1 = disk (state_with target1 Dir)"
    by blast
  from c1 c2 c3 c4 show ?thesis by simp
qed

lemmas example_defs =
  serve_def start_def state_with_def empty_disk_def write_file_def table_curl_def web_def crlf_def
  pdf_bytes_def html_bytes_def out_temp_def out_folder_def target1_def
  doc1_def doc2_def doc3_def doc4_def doc_null_date_def
  list_url_of_def list_docs_def py_get_def py_truthy_def py_iter_def py_str_def split_first_def
  py_upper_def upper_char_def py_strip_def py_isspace_def
  os_path_join_def os_path_exists_def os_path_getsize_def os_makedirs_def os_remove_def
  open_read_def open_read_text_def verify_pdf_def remove_quietly_def
  doc_target_def official_url_def fetch_doc_def get_redirect_url_def probe_cmd_def
  location_of_def re_search_location_def match_location_def group_from_def at_eol_def
  opt_cr_eol_def redirect_found_def download_final_def download_cmd_def count_if_valid_def

lemma get_redirect_url_effect:
  assumes "get_redirect_url e url api_key temp_header_file s = Inr (r, s1)"
  shows "success_count s1 = success_count s"
    and "polls s1 = polls s"
    and "processed_count s1 = processed_count s"
    and "(\<forall>u. url \<noteq> JStr u) \<Longrightarrow> requests s1 = requests s \<and> r = None"
    and "url = JStr u \<Longrightarrow> \<exists>rc. requests s1 = requests s @ [Curl (probe_cmd temp_header_file api_key u) rc]"
  using assms
  by (auto simp: get_redirect_url_def Let_def split: sum.splits option.splits if_splits json.splits)

lemma cmd_differ: "download_cmd filepath use_key api_key u \<noteq> probe_cmd t k v"
  by (simp add: download_cmd_def probe_cmd_def)

lemma fetch_doc_count:
  assumes "fetch_doc e api_key temp_header_file list_url doc doc_id filepath s = Inr s'"
  shows "success_count s' = success_count s + (if new_valid_download s s' filepath then 1 else 0)"
proof -
  from assms obtain url where url: "official_url e list_url doc doc_id = Inr url"
    by (auto simp: fetch_doc_def split: sum.splits)
  with assms obtain r s1 where
    probe: "get_redirect_url e url api_key temp_header_file s = Inr (r, s1)"
    by (auto simp: fetch_doc_def split: sum.splits)
  note f = fetch_doc_unfold [OF url probe, of filepath]
  note eff = get_redirect_url_effect [OF probe]
  show ?thesis
  proof (cases "\<exists>u. url = JStr u")
    case False
    then have "requests s1 = requests s" "r = None" using eff(4) by auto
    with False assms eff(1) show ?thesis
      by (cases url)
         (auto simp: f redirect_found_def download_final_def count_if_valid_Inr new_valid_download_def)
  next
    case True
    then obtain u where u: "url = JStr u" by blast
    from eff(5) [OF u] obtain rc0 where
      rq: "requests s1 = requests s @ [Curl (probe_cmd temp_header_file api_key u) rc0]" by blast
    define target where "target = (if redirect_found r then the r else u)"
    define use where "use = (\<not> redirect_found r)"
    define k where "k = (if redirect_found r then [] else api_key)"
    have dl: "(if redirect_found r then download_final e (JStr (the r)) filepath False [] s1
               else download_final e url filepath True api_key s1)
              = download_final e (JStr target) filepath use k s1"
      by (simp add: target_def use_def k_def u)
    have f': "fetch_doc e api_key temp_header_file list_url doc doc_id filepath s
               = count_if_valid filepath (download_final e (JStr target) filepath use k s1)"
      by (simp only: f dl)
    let ?cmd = "download_cmd filepath use k target"
    show ?thesis
    proof (cases "run_curl e ?cmd (disk s1)")
      case None
      from assms have "s' = s1\<lparr>requests := requests s1 @ [Curl ?cmd None]\<rparr>"
        by (simp add: f' download_final_JStr None count_if_valid_Inr)
      then show ?thesis
        by (simp add: new_valid_download_def eff(1))
    next
      case (Some p)
      obtain rc fs' where p: "p = (rc, fs')" by (cases p)
      let ?s2 = "s1\<lparr>requests := requests s1 @ [Curl ?cmd (Some rc)], disk := fs'\<rparr>"
      from assms have s': "s' = (if rc = 0 \<and> verify_pdf fs' filepath = Inr True
                                 then ?s2\<lparr>success_count := success_count ?s2 + 1\<rparr> else ?s2)"
        by (simp add: f' download_final_JStr Some p count_if_valid_Inr)
      show ?thesis
      proof (cases "rc = 0 \<and> verify_pdf fs' filepath = Inr True")
        case True
        then have "new_valid_download s s' filepath"
          unfolding new_valid_download_def s' by (auto simp: rq)
        with True show ?thesis by (simp add: s' eff(1))
      next
        case False
        then have "\<not> new_valid_download s s' filepath"
          unfolding new_valid_download_def s' by auto
        with False show ?thesis by (simp add: s' eff(1))
      qed
    qed
  qed
qed

text \<open>
  Claim C10. One pass of the loop body raises the success counter by one exactly when
  its download command returned 0 and the file validates afterwards, and leaves it as it
  was otherwise: when the record is skipped for its valid file, when the command fails,
  and when the downloaded file does not validate. A counted file did not validate
  before the pass. The final message reports this counter, which starts at 0.
\<close>

theorem success_count_step:
  "doc_target e app_num app_folder doc = Inr (doc_id, filepath)
   \<and> process_doc e api_key temp_header_file app_num app_folder list_url doc s = Inr s' \<longrightarrow>
     success_count s' = success_count s + (if new_valid_download s s' filepath then 1 else 0)
   \<and> (new_valid_download s s' filepath \<longrightarrow> verify_pdf (disk s) filepath \<noteq> Inr True)
   \<and> (verify_pdf (disk s) filepath = Inr True \<longrightarrow> s' = s)"
proof (intro impI)
  assume a: "doc_target e app_num app_folder doc = Inr (doc_id, filepath)
   \<and> process_doc e api_key temp_header_file app_num app_folder list_url doc s = Inr s'"
  then have t: "doc_target e app_num app_folder doc = Inr (doc_id, filepath)"
    and p: "process_doc e api_key temp_header_file app_num app_folder list_url doc s = Inr s'"
    by simp_all
  have same: "\<not> new_valid_download s s filepath"
    by (simp add: new_valid_download_def)
  show "success_count s' = success_count s + (if new_valid_download s s' filepath then 1 else 0)
   \<and> (new_valid_download s s' filepath \<longrightarrow> verify_pdf (disk s) filepath \<noteq> Inr True)
   \<and> (verify_pdf (disk s) filepath = Inr True \<longrightarrow> s' = s)"
  proof (cases "verify_pdf (disk s) filepath = Inr True")
    case True
    then have "os_path_exists (disk s) filepath"
      by (auto simp: verify_pdf_def split: if_splits)
    with True p t have "s' = s" by (simp add: process_doc_def)
    with True same show ?thesis by simp
  next
    case False
    with verify_pdf_bool [of "disk s" filepath]
    have v: "verify_pdf (disk s) filepath = Inr False" by simp
    define s0 where "s0 = (if os_path_exists (disk s) filepath
                           then s\<lparr>disk := remove_quietly (disk s) filepath\<rparr> else s)"
    from p t v have "fetch_doc e api_key temp_header_file list_url doc doc_id filepath s0 = Inr s'"
      by (simp add: process_doc_def s0_def split: if_splits)
    from fetch_doc_count [OF this]
    have "success_count s' = success_count s0 + (if new_valid_download s0 s' filepath then 1 else 0)" .
    moreover have "success_count s0 = success_count s"
      and "new_valid_download s0 s' filepath = new_valid_download s s' filepath"
      by (simp_all add: s0_def new_valid_download_def)
    ultimately show ?thesis using False by simp
  qed
qed

lemma Inr_projr: "\<not> isl x \<Longrightarrow> x = Inr (projr x)"
  by (cases x) simp_all

theorem success_count_step_witness:
  "success_count (projr (process_doc (serve [doc1]) ''KEY'' out_temp ''17123456'' out_folder
       (list_url_of ''17123456'') doc1 start)) = 1
   \<and> new_valid_download start (projr (process_doc (serve [doc1]) ''KEY'' out_temp ''17123456''
       out_folder (list_url_of ''17123456'') doc1 start)) target1
   \<and> success_count (projr (process_doc (serve [doc4]) ''KEY'' out_temp ''17123456'' out_folder
       (list_url_of ''17123456'') doc4 start)) = 0
   \<and> \<not> new_valid_download start (projr (process_doc (serve [doc4]) ''KEY'' out_temp ''17123456''
       out_folder (list_url_of ''17123456'') doc4 start))
       ''/out/App_17123456/17123456_2023-05-04_NPL_D4.pdf''
   \<and> projr (process_doc (serve [doc1]) ''KEY'' out_temp ''17123456'' out_folder
       (list_url_of ''17123456'') doc1 (state_with target1 (File pdf_bytes)))
     = state_with target1 (File pdf_bytes)"
proof -
  let ?L = "list_url_of ''17123456''"
  let ?r1 = "process_doc (serve [doc1]) ''KEY'' out_temp ''17123456'' out_folder ?L doc1 start"
  let ?r4 = "process_doc (serve [doc4]) ''KEY'' out_temp ''17123456'' out_folder ?L doc4 start"
  let ?t4 = "''/out/App_17123456/17123456_2023-05-04_NPL_D4.pdf''"
  let ?s = "state_with target1 (File pdf_bytes)"
  let ?r5 = "process_doc (serve [doc1]) ''KEY'' out_temp ''17123456'' out_folder ?L doc1 ?s"
  have t1: "doc_target (serve [doc1]) ''17123456'' out_folder doc1 = Inr (JStr ''D1'', target1)"
    by (simp add: doc_target_def doc1_def py_get_def split_first_def py_str_def os_path_join_def
          out_folder_def target1_def)
  have t4: "doc_target (serve [doc4]) ''17123456'' out_folder doc4 = Inr (JStr ''D4'', ?t4)"
    by (simp add: doc_target_def doc4_def py_get_def split_first_def py_str_def os_path_join_def
          out_folder_def)
  have e1: "\<not> isl ?r1 \<and> success_count (projr ?r1) = 1"
    by (simp add: process_doc_def t1 example_defs)
  have e4: "\<not> isl ?r4 \<and> success_count (projr ?r4) = 0"
    by (simp add: process_doc_def t4 example_defs)
  have e5: "\<not> isl ?r5 \<and> verify_pdf (disk ?s) target1 = Inr True"
    by (simp add: process_doc_def t1 example_defs)
  from e1 have i1: "?r1 = Inr (projr ?r1)" by (simp add: Inr_projr)
  from e4 have i4: "?r4 = Inr (projr ?r4)" by (simp add: Inr_projr)
  from e5 have i5: "?r5 = Inr (projr ?r5)" by (simp add: Inr_projr)
  have z: "success_count start = 0" by (simp add: start_def)
  from t1 i1 have h1: "doc_target (serve [doc1]) ''17123456'' out_folder doc1 = Inr (JStr ''D1'', target1)
      \<and> ?r1 = Inr (projr ?r1)" by (intro conjI)
  from t4 i4 have h4: "doc_target (serve [doc4]) ''17123456'' out_folder doc4 = Inr (JStr ''D4'', ?t4)
      \<and> ?r4 = Inr (projr ?r4)" by (intro conjI)
  from t1 i5 have h5: "doc_target (serve [doc1]) ''17123456'' out_folder doc1 = Inr (JStr ''D1'', target1)
      \<and> ?r5 = Inr (projr ?r5)" by (intro conjI)
  note s1 = success_count_step [THEN mp, OF h1, THEN conjunct1]
  note s4 = success_count_step [THEN mp, OF h4, THEN conjunct1]
  note s5 = success_count_step [THEN mp, OF h5, THEN conjunct2, THEN conjunct2, THEN mp]
  have c1: "new_valid_download start (projr ?r1) target1"
  proof (rule ccontr)
    assume "\<not> new_valid_download start (projr ?r1) target1"
    with s1 have "success_count (projr ?r1) = success_count start" by simp
    with e1 z show False by simp
  qed
  have c4: "\<not> new_valid_download start (projr ?r4) ?t4"
  proof
    assume "new_valid_download start (projr ?r4) ?t4"
    with s4 have "success_count (projr ?r4) = success_count start + 1" by simp
    with e4 z show False by simp
  qed
  from e5 have "verify_pdf (disk ?s) target1 = Inr True" by (rule conjunct2)
  then have c5: "projr ?r5 = ?s" by (rule s5)
  from e1 [THEN conjunct2] c1 e4 [THEN conjunct2] c4 c5 show ?thesis by (intro conjI)
qed

subsection \<open>Cancellation\<close>





text \<open>
  The scenario of the specification: three application numbers, and Stop pressed while
  the second is being processed. The third is never listed, and the file of the first
  stays on the disk.
\<close>

lemma cancellation_scenario:
  "fst (run_process (serve_until 3 [doc1]) ''KEY'' ''17000001 17000002 17000003'' ''/out'' start)
     = Finished 1
   \<and> requests (snd (run_process (serve_until 3 [doc1]) ''KEY'' ''17000001 17000002 17000003''
        ''/out'' start))
     = [ListRequest (list_url_of ''17000001''),
        Curl (probe_cmd out_temp ''KEY'' ''https://api.example/doc1'') (Some 0),
        Curl (download_cmd ''/out/App_17000001/17000001_2023-05-01_SPEC_D1.pdf'' False []
               ''https://s3.example/doc1.pdf'') (Some 0),
        ListRequest (list_url_of ''17000002'')]
   \<and> verify_pdf (disk (snd (run_process (serve_until 3 [doc1]) ''KEY''
         ''17000001 17000002 17000003'' ''/out'' start)))
        ''/out/App_17000001/17000001_2023-05-01_SPEC_D1.pdf'' = Inr True"
  by (simp add: run_process_def app_numbers_def py_split_def py_replace_def serve_until_def
        process_doc_def example_defs)

subsection \<open>Failures\<close>

lemma get_redirect_url_returns:
  assumes "nodes (disk s) temp_header_file \<noteq> Some Dir"
    and "temp_header_file \<notin> undeletable (disk s)"
  shows "\<exists>r s1. get_redirect_url e url api_key temp_header_file s = Inr (r, s1)"
proof -
  have "\<exists>fs1. (if os_path_exists (disk s) temp_header_file
               then os_remove (disk s) temp_header_file else Inr (disk s)) = Inr fs1"
    using assms
    by (auto simp: os_path_exists_def os_remove_def split: option.splits node.splits)
  then obtain fs1 where "(if os_path_exists (disk s) temp_header_file
               then os_remove (disk s) temp_header_file else Inr (disk s)) = Inr fs1" ..
  then show ?thesis
    by (cases url)
       (simp_all add: get_redirect_url_def Let_def split: option.splits sum.splits prod.splits)
qed

lemma fetch_doc_returns:
  assumes "official_url e list_url doc doc_id = Inr url"
    and "nodes (disk s) temp_header_file \<noteq> Some Dir"
    and "temp_header_file \<notin> undeletable (disk s)"
  shows "\<exists>s'. fetch_doc e api_key temp_header_file list_url doc doc_id filepath s = Inr s'"
proof -
  from get_redirect_url_returns [OF assms(2,3)] obtain r s1 where
    probe: "get_redirect_url e url api_key temp_header_file s = Inr (r, s1)" by blast
  show ?thesis
    unfolding fetch_doc_unfold [OF assms(1) probe]
    by (cases "if redirect_found r then download_final e (JStr (the r)) filepath False [] s1
               else download_final e url filepath True api_key s1")
       (simp only: count_if_valid_Inr, blast)
qed

lemma remove_quietly_keeps:
  "nodes (remove_quietly fs p) q = None \<or> nodes (remove_quietly fs p) q = nodes fs q"
  "undeletable (remove_quietly fs p) = undeletable fs"
  by (auto simp: remove_quietly_def os_remove_def split: option.splits node.splits)

lemma process_doc_returns:
  assumes "doc_target e app_num app_folder doc = Inr (doc_id, filepath)"
    and "official_url e list_url doc doc_id = Inr url"
    and "nodes (disk s) temp_header_file \<noteq> Some Dir"
    and "temp_header_file \<notin> undeletable (disk s)"
  shows "\<exists>s'. process_doc e api_key temp_header_file app_num app_folder list_url doc s = Inr s'"
proof -
  let ?s0 = "s\<lparr>disk := remove_quietly (disk s) filepath\<rparr>"
  have "nodes (disk ?s0) temp_header_file \<noteq> Some Dir"
    using remove_quietly_keeps(1) [of "disk s" filepath temp_header_file] assms(3) by auto
  moreover have "temp_header_file \<notin> undeletable (disk ?s0)"
    using assms(4) by (simp add: remove_quietly_keeps(2))
  ultimately
  have a: "\<exists>s'. fetch_doc e api_key temp_header_file list_url doc doc_id filepath ?s0 = Inr s'"
    by (rule fetch_doc_returns [OF assms(2)])
  have b: "\<exists>s'. fetch_doc e api_key temp_header_file list_url doc doc_id filepath s = Inr s'"
    using assms(3,4) by (rule fetch_doc_returns [OF assms(2)])
  show ?thesis
    using a b verify_pdf_bool [of "disk s" filepath]
    by (cases "verify_pdf (disk s) filepath = Inr True") (auto simp: process_doc_def assms(1))
qed

text \<open>
  Claim C7, as the code has it. For a well-formed record (its target path and its URL
  can be derived) the loop body returns whatever \<open>curl\<close> does: a return code other
  than 0, an exception at its start, bytes that are no PDF. The document loop then goes
  on with the next record. This needs the scratch header file to be removable, since
  its removal stands outside every \<open>try\<close>. A failed list request skips its
  application number, and the loop goes on with the next number.
\<close>

theorem failures_are_contained:
  "(\<not> stop_flag e (polls s)
    \<and> doc_target e app_num app_folder doc = Inr (doc_id, filepath)
    \<and> official_url e list_url doc doc_id = Inr url
    \<and> nodes (disk s) temp_header_file \<noteq> Some Dir
    \<and> temp_header_file \<notin> undeletable (disk s) \<longrightarrow>
      (\<exists>s'. process_doc e api_key temp_header_file app_num app_folder list_url doc
               (s\<lparr>polls := polls s + 1\<rparr>) = Inr s'
         \<and> process_docs e api_key temp_header_file app_num app_folder list_url (doc # docs) s
             = process_docs e api_key temp_header_file app_num app_folder list_url docs s'))
   \<and> (\<not> stop_flag e (polls s)
    \<and> list_docs e (list_url_of a) api_key = None
    \<and> (nodes (disk s) (os_path_join root_dir (''App_'' @ a)) \<noteq> None
        \<or> os_path_join root_dir (''App_'' @ a) \<notin> uncreatable (disk s)) \<longrightarrow>
      (\<exists>s'. process_apps e api_key root_dir temp_header_file (a # rest) s
               = process_apps e api_key root_dir temp_header_file rest s'
         \<and> requests s' = requests s @ [ListRequest (list_url_of a)]
         \<and> success_count s' = success_count s))"
proof (intro conjI impI)
  assume h: "\<not> stop_flag e (polls s)
    \<and> doc_target e app_num app_folder doc = Inr (doc_id, filepath)
    \<and> official_url e list_url doc doc_id = Inr url
    \<and> nodes (disk s) temp_header_file \<noteq> Some Dir
    \<and> temp_header_file \<notin> undeletable (disk s)"
  let ?s = "s\<lparr>polls := polls s + 1\<rparr>"
  from h have "nodes (disk ?s) temp_header_file \<noteq> Some Dir"
    and "temp_header_file \<notin> undeletable (disk ?s)" by simp_all
  with h obtain s' where
    p: "process_doc e api_key temp_header_file app_num app_folder list_url doc ?s = Inr s'"
    using process_doc_returns [of e app_num app_folder doc doc_id filepath list_url url ?s
        temp_header_file api_key]
    by blast
  with h have "process_docs e api_key temp_header_file app_num app_folder list_url (doc # docs) s
             = process_docs e api_key temp_header_file app_num app_folder list_url docs s'"
    by simp
  with p show "\<exists>s'. process_doc e api_key temp_header_file app_num app_folder list_url doc
               (s\<lparr>polls := polls s + 1\<rparr>) = Inr s'
         \<and> process_docs e api_key temp_header_file app_num app_folder list_url (doc # docs) s
             = process_docs e api_key temp_header_file app_num app_folder list_url docs s'"
    by blast
next
  assume h: "\<not> stop_flag e (polls s)
    \<and> list_docs e (list_url_of a) api_key = None
    \<and> (nodes (disk s) (os_path_join root_dir (''App_'' @ a)) \<noteq> None
        \<or> os_path_join root_dir (''App_'' @ a) \<notin> uncreatable (disk s))"
  let ?folder = "os_path_join root_dir (''App_'' @ a)"
  have "\<exists>fs1. (if os_path_exists (disk s) ?folder then Inr (disk s)
         else os_makedirs (disk s) ?folder) = Inr fs1"
    using h by (cases "nodes (disk s) ?folder") (simp_all add: os_path_exists_def os_makedirs_def)
  then obtain fs1 where
    m: "(if os_path_exists (disk s) ?folder then Inr (disk s)
         else os_makedirs (disk s) ?folder) = Inr fs1" ..
  let ?s2 = "s\<lparr>polls := polls s + 1, processed_count := processed_count s + 1, disk := fs1,
                requests := requests s @ [ListRequest (list_url_of a)]\<rparr>"
  from h m have "process_apps e api_key root_dir temp_header_file (a # rest) s
               = process_apps e api_key root_dir temp_header_file rest ?s2"
    by (cases "os_path_exists (disk s) ?folder") (simp_all add: Let_def)
  moreover have "requests ?s2 = requests s @ [ListRequest (list_url_of a)]
      \<and> success_count ?s2 = success_count s"
    by simp
  ultimately show "\<exists>s'. process_apps e api_key root_dir temp_header_file (a # rest) s
               = process_apps e api_key root_dir temp_header_file rest s'
         \<and> requests s' = requests s @ [ListRequest (list_url_of a)]
         \<and> success_count s' = success_count s"
    by blast
qed

theorem failures_are_contained_witness:
  "(\<exists>s'. process_doc (serve [doc3, doc1]) ''KEY'' out_temp ''17123456'' out_folder
            (list_url_of ''17123456'') doc3 (start\<lparr>polls := polls start + 1\<rparr>) = Inr s'
      \<and> process_docs (serve [doc3, doc1]) ''KEY'' out_temp ''17123456'' out_folder
            (list_url_of ''17123456'') [doc3, doc1] start
          = process_docs (serve [doc3, doc1]) ''KEY'' out_temp ''17123456'' out_folder
              (list_url_of ''17123456'') [doc1] s')
   \<and> (\<exists>s'. process_apps (serve [doc1]) ''KEY'' ''/out'' out_temp [''99999999'', ''17123456''] start
          = process_apps (serve [doc1]) ''KEY'' ''/out'' out_temp [''17123456''] s'
      \<and> requests s' = requests start @ [ListRequest (list_url_of ''99999999'')]
      \<and> success_count s' = success_count start)"
proof -
  let ?L = "list_url_of ''17123456''"
  have h1: "\<not> stop_flag (serve [doc3, doc1]) (polls start)
    \<and> doc_target (serve [doc3, doc1]) ''17123456'' out_folder doc3
        = Inr (JStr ''D3'', ''/out/App_17123456/17123456_nodate_ABST_D3.pdf'')
    \<and> official_url (serve [doc3, doc1]) ?L doc3 (JStr ''D3'')
        = Inr (JStr ''https://api.uspto.gov/api/v1/patent/applications/17123456/documents/D3'')
    \<and> nodes (disk start) out_temp \<noteq> Some Dir
    \<and> out_temp \<notin> undeletable (disk start)"
    by (simp add: serve_def start_def empty_disk_def doc_target_def doc3_def py_get_def
          split_first_def py_str_def os_path_join_def out_folder_def official_url_def
          py_iter_def py_truthy_def list_url_of_def)
  have h2: "\<not> stop_flag (serve [doc1]) (polls start)
    \<and> list_docs (serve [doc1]) (list_url_of ''99999999'') ''KEY'' = None
    \<and> (nodes (disk start) (os_path_join ''/out'' (''App_'' @ ''99999999'')) \<noteq> None
        \<or> os_path_join ''/out'' (''App_'' @ ''99999999'') \<notin> uncreatable (disk start))"
    by (simp add: serve_def start_def empty_disk_def list_docs_def list_url_of_def)
  note th = failures_are_contained [of "serve [doc3, doc1]" start "''17123456''" out_folder doc3
      "JStr ''D3''" "''/out/App_17123456/17123456_nodate_ABST_D3.pdf''" ?L
      "JStr ''https://api.uspto.gov/api/v1/patent/applications/17123456/documents/D3''"
      out_temp "''KEY''" "[doc1]"]
  note th2 = failures_are_contained [of "serve [doc1]" start _ _ _ _ _ _ _ _ "''KEY''" _
      "''99999999''" "''/out''" "[''17123456'']"]
  from th [THEN conjunct1, THEN mp, OF h1] th2 [THEN conjunct2, THEN mp, OF h2]
  show ?thesis by (intro conjI)
qed

text \<open>
  A run over three records: the URL of the first cannot be reached, the second gives an
  HTML page, the third gives a PDF. All three are fetched, and one file is counted.
\<close>

lemma failures_scenario:
  "fst (run_process (serve [doc3, doc4, doc1]) ''KEY'' ''17123456'' ''/out'' start) = Finished 1
   \<and> map (\<lambda>ev. case ev of Curl cmd rc \<Rightarrow> (last cmd, rc) | ListRequest u \<Rightarrow> (u, None))
        (requests (snd (run_process (serve [doc3, doc4, doc1]) ''KEY'' ''17123456'' ''/out'' start)))
     = [(list_url_of ''17123456'', None),
        (list_url_of ''17123456'' @ ''/D3'', Some 6), (list_url_of ''17123456'' @ ''/D3'', Some 6),
        (''https://api.example/doc4'', Some 0), (''https://api.example/doc4'', Some 0),
        (''https://api.example/doc1'', Some 0), (''https://s3.example/doc1.pdf'', Some 0)]"
  by (simp add: run_process_def app_numbers_def py_split_def py_replace_def process_doc_def
        example_defs Let_def)

text \<open>
  The claim as the specification words it fails: a record with a malformed field is
  not caught. The list below holds a record whose \<open>officialDate\<close> is \<open>null\<close>, then a
  good record. \<open>split\<close> on \<open>None\<close> raises \<open>AttributeError\<close>, no handler stands around
  the loop body, the worker ends, and the good record is never fetched.
\<close>

theorem malformed_record_counterexample:
  "fst (run_process (serve [doc_null_date, doc1]) ''KEY'' ''17123456'' ''/out'' start)
     = Crashed AttributeError
   \<and> requests (snd (run_process (serve [doc_null_date, doc1]) ''KEY'' ''17123456'' ''/out'' start))
     = [ListRequest (list_url_of ''17123456'')]"
  by (simp add: run_process_def app_numbers_def py_split_def py_replace_def process_doc_def
        example_defs Let_def)

subsection \<open>A second run\<close>

lemma process_docs_all_valid:
  "\<forall>doc\<in>set ds. \<exists>t. doc_target e app_num app_folder doc = Inr t
                      \<and> verify_pdf (disk s) (snd t) = Inr True \<Longrightarrow>
   \<exists>s'. process_docs e api_key temp_header_file app_num app_folder list_url ds s = Inr s'
        \<and> disk s' = disk s \<and> requests s' = requests s \<and> success_count s' = success_count s"
proof (induction ds arbitrary: s)
  case Nil
  then show ?case by simp
next
  case (Cons doc ds)
  let ?s = "s\<lparr>polls := polls s + 1\<rparr>"
  from Cons.prems obtain doc_id filepath where
    t: "doc_target e app_num app_folder doc = Inr (doc_id, filepath)"
    and v: "verify_pdf (disk s) filepath = Inr True"
    by auto
  from v have x: "os_path_exists (disk s) filepath"
    by (auto simp: verify_pdf_def split: if_splits)
  have p: "process_doc e api_key temp_header_file app_num app_folder list_url doc ?s = Inr ?s"
    using t v x by (simp add: process_doc_def)
  from Cons.prems have "\<forall>doc\<in>set ds. \<exists>t. doc_target e app_num app_folder doc = Inr t
                      \<and> verify_pdf (disk ?s) (snd t) = Inr True"
    by simp
  from Cons.IH [OF this] obtain s' where
    "process_docs e api_key temp_header_file app_num app_folder list_url ds ?s = Inr s'"
    "disk s' = disk s" "requests s' = requests s" "success_count s' = success_count s"
    by auto
  then show ?case
    using p by (cases "stop_flag e (polls s)") simp_all
qed

lemma verify_pdf_makedirs:
  "os_makedirs fs q = Inr fs' \<Longrightarrow> verify_pdf fs' p = verify_pdf fs p"
  by (auto simp: os_makedirs_def verify_pdf_def os_path_exists_def os_path_getsize_def
        open_read_def split: if_splits option.splits node.splits)

lemma targets_valid_cong:
  assumes "\<forall>p. verify_pdf fs' p = verify_pdf fs p"
  shows "targets_valid e api_key root_dir apps fs' = targets_valid e api_key root_dir apps fs"
proof -
  have "verify_pdf fs' = verify_pdf fs"
    by (rule ext) (simp add: assms)
  then show ?thesis
    by (simp add: targets_valid_def cong: option.case_cong sum.case_cong)
qed

lemma targets_valid_Cons:
  "targets_valid e api_key root_dir (a # apps) fs \<Longrightarrow> targets_valid e api_key root_dir apps fs"
  by (simp add: targets_valid_def)

lemma targets_valid_docs:
  assumes "targets_valid e api_key root_dir (a # apps) fs"
    and "list_docs e (list_url_of a) api_key = Some docs" and "py_truthy docs"
  shows "\<exists>ds. py_iter docs = Inr ds
      \<and> (\<forall>doc\<in>set ds. \<exists>t. doc_target e a (os_path_join root_dir (''App_'' @ a)) doc = Inr t
                              \<and> verify_pdf fs (snd t) = Inr True)"
proof -
  from assms have c: "case py_iter docs of
        Inl x \<Rightarrow> False
      | Inr ds \<Rightarrow>
          (\<forall>doc\<in>set ds.
             case doc_target e a (os_path_join root_dir (''App_'' @ a)) doc of
               Inl x \<Rightarrow> False
             | Inr t \<Rightarrow> verify_pdf fs (snd t) = Inr True)"
    by (simp add: targets_valid_def)
  then obtain ds where ds: "py_iter docs = Inr ds"
    by (cases "py_iter docs") simp_all
  have "\<exists>t. doc_target e a (os_path_join root_dir (''App_'' @ a)) doc = Inr t
            \<and> verify_pdf fs (snd t) = Inr True" if "doc \<in> set ds" for doc
  proof -
    from c ds that have "case doc_target e a (os_path_join root_dir (''App_'' @ a)) doc of
               Inl x \<Rightarrow> False
             | Inr t \<Rightarrow> verify_pdf fs (snd t) = Inr True"
      by simp
    then show ?thesis
      by (cases "doc_target e a (os_path_join root_dir (''App_'' @ a)) doc") simp_all
  qed
  with ds show ?thesis by blast
qed

lemma process_apps_all_valid:
  "targets_valid e api_key root_dir apps (disk s) \<Longrightarrow>
   download_count (requests (end_state (process_apps e api_key root_dir temp_header_file apps s)))
     = download_count (requests s)
   \<and> (\<forall>p. verify_pdf (disk (end_state (process_apps e api_key root_dir temp_header_file apps s))) p
          = verify_pdf (disk s) p)
   \<and> success_count (end_state (process_apps e api_key root_dir temp_header_file apps s))
     = success_count s"
proof (induction apps arbitrary: s)
  case Nil
  then show ?case by (simp add: end_state_def)
next
  case (Cons a apps)
  let ?folder = "os_path_join root_dir (''App_'' @ a)"
  let ?s1 = "s\<lparr>polls := polls s + 1, processed_count := processed_count s + 1\<rparr>"
  let ?mk = "if os_path_exists (disk s) ?folder then Inr (disk s)
             else os_makedirs (disk s) ?folder"
  show ?case
  proof (cases "stop_flag e (polls s)")
    case True
    then show ?thesis by (simp add: end_state_def)
  next
    case False
    show ?thesis
    proof (cases ?mk)
      case (Inl x)
      with False show ?thesis
        by (cases "os_path_exists (disk s) ?folder") (simp_all add: end_state_def Let_def)
    next
      case (Inr fs1)
      then have same: "\<forall>p. verify_pdf fs1 p = verify_pdf (disk s) p"
        by (auto simp: verify_pdf_makedirs split: if_splits)
      let ?s2 = "?s1\<lparr>disk := fs1, requests := requests ?s1 @ [ListRequest (list_url_of a)]\<rparr>"
      have tv: "targets_valid e api_key root_dir (a # apps) (disk ?s2)"
        using Cons.prems targets_valid_cong [OF same] by simp
      have c2: "download_count (requests ?s2) = download_count (requests s)"
        by (simp add: download_count_def is_download_def)
      have step: "download_count (requests (end_state (process_apps e api_key root_dir temp_header_file apps s3)))
            = download_count (requests s)
          \<and> (\<forall>p. verify_pdf (disk (end_state (process_apps e api_key root_dir temp_header_file apps s3))) p
                 = verify_pdf (disk s) p)
          \<and> success_count (end_state (process_apps e api_key root_dir temp_header_file apps s3))
            = success_count s"
        if "disk s3 = fs1" "requests s3 = requests ?s2" "success_count s3 = success_count s" for s3
      proof -
        from tv that have "targets_valid e api_key root_dir apps (disk s3)"
          by (simp add: targets_valid_Cons)
        from Cons.IH [OF this] that same c2 show ?thesis by simp
      qed
      show ?thesis
      proof (cases "list_docs e (list_url_of a) api_key")
        case None
        from step [of ?s2] have "download_count (requests (end_state (process_apps e api_key root_dir temp_header_file apps ?s2)))
            = download_count (requests s)
          \<and> (\<forall>p. verify_pdf (disk (end_state (process_apps e api_key root_dir temp_header_file apps ?s2))) p
                 = verify_pdf (disk s) p)
          \<and> success_count (end_state (process_apps e api_key root_dir temp_header_file apps ?s2))
            = success_count s"
          by simp
        moreover have "process_apps e api_key root_dir temp_header_file (a # apps) s
            = process_apps e api_key root_dir temp_header_file apps ?s2"
          using False Inr None
          by (cases "os_path_exists (disk s) ?folder") (simp_all add: Let_def)
        ultimately show ?thesis by simp
      next
        case (Some docs)
        show ?thesis
        proof (cases "py_truthy docs")
          case f: False
          from step [of ?s2] have "download_count (requests (end_state (process_apps e api_key root_dir temp_header_file apps ?s2)))
              = download_count (requests s)
            \<and> (\<forall>p. verify_pdf (disk (end_state (process_apps e api_key root_dir temp_header_file apps ?s2))) p
                   = verify_pdf (disk s) p)
            \<and> success_count (end_state (process_apps e api_key root_dir temp_header_file apps ?s2))
              = success_count s"
            by simp
          moreover have "process_apps e api_key root_dir temp_header_file (a # apps) s
              = process_apps e api_key root_dir temp_header_file apps ?s2"
            using False Inr Some f
            by (cases "os_path_exists (disk s) ?folder") (simp_all add: Let_def)
          ultimately show ?thesis by simp
        next
          case True
          from targets_valid_docs [OF tv Some True] obtain ds where
            it: "py_iter docs = Inr ds"
            and all: "\<forall>doc\<in>set ds. \<exists>t. doc_target e a ?folder doc = Inr t
                              \<and> verify_pdf (disk ?s2) (snd t) = Inr True"
            by blast
          from process_docs_all_valid [OF all, of api_key temp_header_file "list_url_of a"]
          obtain s3 where
            d: "process_docs e api_key temp_header_file a ?folder (list_url_of a) ds ?s2 = Inr s3"
            and k: "disk s3 = disk ?s2" "requests s3 = requests ?s2"
              "success_count s3 = success_count ?s2"
            by blast
          from k have "disk s3 = fs1" "requests s3 = requests ?s2" "success_count s3 = success_count s"
            by simp_all
          note st = step [OF this]
          have "process_apps e api_key root_dir temp_header_file (a # apps) s
              = process_apps e api_key root_dir temp_header_file apps s3"
            using False Inr Some True it d
            by (cases "os_path_exists (disk s) ?folder") (simp_all add: Let_def)
          with st show ?thesis by simp
        qed
      qed
    qed
  qed
qed

lemma verify_pdf_remove:
  "os_remove fs q = Inr fs' \<Longrightarrow> p \<noteq> q \<Longrightarrow> verify_pdf fs' p = verify_pdf fs p"
  by (auto simp: os_remove_def verify_pdf_def os_path_exists_def os_path_getsize_def
        open_read_def split: if_splits option.splits node.splits)

lemma run_process_all_valid:
  assumes "targets_valid e (py_strip entry_key) root_dir (app_numbers (py_strip txt_list)) (disk s)"
  shows "download_count (requests (snd (run_process e entry_key txt_list root_dir s)))
           = download_count (requests s)
     \<and> (\<forall>p. p \<noteq> os_path_join root_dir ''temp_headers_debug.txt'' \<longrightarrow>
           verify_pdf (disk (snd (run_process e entry_key txt_list root_dir s))) p
             = verify_pdf (disk s) p)
     \<and> (\<forall>n. fst (run_process e entry_key txt_list root_dir s) = Finished n \<longrightarrow> n = 0)"
proof -
  let ?key = "py_strip entry_key"
  let ?apps = "app_numbers (py_strip txt_list)"
  let ?temp = "os_path_join root_dir ''temp_headers_debug.txt''"
  let ?s0 = "s\<lparr>processed_count := 0, success_count := 0\<rparr>"
  let ?r = "process_apps e ?key root_dir ?temp ?apps ?s0"
  from assms have "targets_valid e ?key root_dir ?apps (disk ?s0)" by simp
  from process_apps_all_valid [OF this, of ?temp]
  have dc: "download_count (requests (end_state ?r)) = download_count (requests s)"
    and vp: "\<forall>p. verify_pdf (disk (end_state ?r)) p = verify_pdf (disk s) p"
    and sc: "success_count (end_state ?r) = 0"
    by simp_all
  show ?thesis
  proof (cases "?key = [] \<or> ?apps = [] \<or> root_dir = []")
    case True
    then show ?thesis by (auto simp: run_process_def Let_def)
  next
    case False
    show ?thesis
    proof (cases ?r)
      case (Inl xs)
      obtain x s' where xs: "xs = (x, s')" by (cases xs)
      from Inl xs have "end_state ?r = s'" by (simp add: end_state_def)
      with dc vp False Inl xs show ?thesis
        by (simp add: run_process_def Let_def)
    next
      case (Inr s')
      then have es: "end_state ?r = s'" by (simp add: end_state_def)
      show ?thesis
      proof (cases "os_path_exists (disk s') ?temp")
        case nx: False
        with dc vp sc es False Inr show ?thesis
          by (simp add: run_process_def Let_def)
      next
        case True
        show ?thesis
        proof (cases "os_remove (disk s') ?temp")
          case (Inl x)
          with dc vp sc es False Inr True show ?thesis
            by (simp add: run_process_def Let_def)
        next
          case r: (Inr fs')
          have "\<forall>p. p \<noteq> ?temp \<longrightarrow> verify_pdf fs' p = verify_pdf (disk s) p"
            using verify_pdf_remove [OF r] vp es by simp
          with dc sc es False Inr True r show ?thesis
            by (simp add: run_process_def Let_def)
        qed
      qed
    qed
  qed
qed

text \<open>
  Claim C4. The pipeline is run a second time with the same inputs and the same
  answers of the servers, and every target path validates after the first run. Then the
  second run starts no download, reports no new file, and leaves every file as valid or
  invalid as the first run left it (the scratch header file apart, which the end of a
  run removes).
\<close>

theorem second_run_skips_valid_files:
  "targets_valid e (py_strip entry_key) root_dir (app_numbers (py_strip txt_list))
     (disk (snd (run_process e entry_key txt_list root_dir s))) \<longrightarrow>
     download_count (requests (snd (second_run e entry_key txt_list root_dir s))) = 0
   \<and> (\<forall>p. p \<noteq> os_path_join root_dir ''temp_headers_debug.txt'' \<longrightarrow>
         verify_pdf (disk (snd (second_run e entry_key txt_list root_dir s))) p
           = verify_pdf (disk (snd (run_process e entry_key txt_list root_dir s))) p)
   \<and> (\<forall>n. fst (second_run e entry_key txt_list root_dir s) = Finished n \<longrightarrow> n = 0)"
proof
  let ?s1 = "(snd (run_process e entry_key txt_list root_dir s))\<lparr>requests := []\<rparr>"
  assume "targets_valid e (py_strip entry_key) root_dir (app_numbers (py_strip txt_list))
     (disk (snd (run_process e entry_key txt_list root_dir s)))"
  then have "targets_valid e (py_strip entry_key) root_dir (app_numbers (py_strip txt_list))
     (disk ?s1)" by simp
  from run_process_all_valid [OF this]
  show "download_count (requests (snd (second_run e entry_key txt_list root_dir s))) = 0
   \<and> (\<forall>p. p \<noteq> os_path_join root_dir ''temp_headers_debug.txt'' \<longrightarrow>
         verify_pdf (disk (snd (second_run e entry_key txt_list root_dir s))) p
           = verify_pdf (disk (snd (run_process e entry_key txt_list root_dir s))) p)
   \<and> (\<forall>n. fst (second_run e entry_key txt_list root_dir s) = Finished n \<longrightarrow> n = 0)"
    by (simp add: second_run_def download_count_def)
qed

lemma first_run_example:
  "fst (run_process (serve [doc1]) ''KEY'' ''17123456'' ''/out'' start) = Finished 1
   \<and> nodes (disk (snd (run_process (serve [doc1]) ''KEY'' ''17123456'' ''/out'' start)))
     = [out_folder \<mapsto> Dir, target1 \<mapsto> File pdf_bytes]"
  by (simp add: run_process_def app_numbers_def py_split_def py_replace_def process_doc_def
        example_defs Let_def)

theorem second_run_skips_valid_files_witness:
  "download_count (requests (snd (second_run (serve [doc1]) ''KEY'' ''17123456'' ''/out'' start))) = 0
   \<and> verify_pdf (disk (snd (second_run (serve [doc1]) ''KEY'' ''17123456'' ''/out'' start))) target1
     = Inr True
   \<and> fst (run_process (serve [doc1]) ''KEY'' ''17123456'' ''/out'' start) = Finished 1"
proof -
  let ?run = "run_process (serve [doc1]) ''KEY'' ''17123456'' ''/out'' start"
  have ap: "app_numbers (py_strip ''17123456'') = [''17123456'']"
    by (simp add: app_numbers_def py_strip_def py_split_def py_replace_def py_isspace_def)
  have k: "py_strip ''KEY'' = ''KEY''"
    by (simp add: py_strip_def py_isspace_def)
  have v: "verify_pdf (disk (snd ?run)) target1 = Inr True"
    using first_run_example
    by (simp add: verify_pdf_def os_path_exists_def os_path_getsize_def open_read_def
          pdf_bytes_def target1_def out_folder_def)
       (simp add: run_process_def app_numbers_def py_split_def py_replace_def process_doc_def
          example_defs Let_def)
  have t: "doc_target (serve [doc1]) ''17123456'' (os_path_join ''/out'' ''App_17123456'') doc1
      = Inr (JStr ''D1'', target1)"
    by (simp add: doc_target_def doc1_def py_get_def split_first_def py_str_def os_path_join_def
          target1_def)
  have ld: "list_docs (serve [doc1]) (list_url_of ''17123456'') ''KEY'' = Some (JArr [doc1])"
    by (simp add: list_docs_def serve_def)
  have h: "targets_valid (serve [doc1]) (py_strip ''KEY'') ''/out'' (app_numbers (py_strip ''17123456''))
      (disk (snd ?run))"
    unfolding ap k
    by (simp add: targets_valid_def ld py_truthy_def py_iter_def t v)
  have ne: "target1 \<noteq> os_path_join ''/out'' ''temp_headers_debug.txt''"
    by (simp add: target1_def os_path_join_def)
  note th = second_run_skips_valid_files [THEN mp, OF h]
  from th have c1: "download_count (requests (snd (second_run (serve [doc1]) ''KEY'' ''17123456''
      ''/out'' start))) = 0"
    by (rule conjunct1)
  from th [THEN conjunct2, THEN conjunct1, rule_format, OF ne] v
  have c2: "verify_pdf (disk (snd (second_run (serve [doc1]) ''KEY'' ''17123456'' ''/out'' start)))
      target1 = Inr True"
    by simp
  from c1 c2 first_run_example [THEN conjunct1] show ?thesis by (intro conjI)
qed

text \<open>
  Outside the condition of the claim: the server below answers with an HTML page, the
  first run leaves it on the disk as a file that does not validate, and the second run
  starts a download for that record again.
\<close>

lemma second_run_after_invalid_download:
  "download_count (requests (snd (second_run (serve [doc4]) ''KEY'' ''17123456'' ''/out'' start))) = 1
   \<and> fst (second_run (serve [doc4]) ''KEY'' ''17123456'' ''/out'' start) = Finished 0"
  by (simp add: second_run_def run_process_def app_numbers_def py_split_def py_replace_def
        process_doc_def example_defs Let_def download_count_def is_download_def)

subsection \<open>Further properties of whole runs\<close>

text \<open>
  A whole run with the number box holding \<open>17/123,456\<close>: the worker asks the list
  endpoint for the applications 17123 and 456.
\<close>

lemma formatted_number_run:
  "requests (snd (run_process (serve [doc1]) ''KEY'' ''17/123,456'' ''/out'' start))
     = [ListRequest (list_url_of ''17123''), ListRequest (list_url_of ''456'')]"
  by (simp add: run_process_def app_numbers_def py_split_def py_replace_def process_doc_def
        example_defs Let_def)

text \<open>
  A remark on the resolution of the URL: the loop over the option bag stops at the first PDF entry even
  when that entry has no usable \<open>downloadUrl\<close>; the URL is then taken from the top
  level of the record or from the fallback, and a later PDF entry is not looked at.
\<close>

lemma official_url_pdf_entry_without_url:
  assumes "doc = JObj kvs"
    and "member doc ''downloadOptionBag'' = Some (JArr opts)"
    and "\<forall>opt\<in>set opts. entry_ok opt"
    and "find pdf_entry opts = Some opt"
    and "member opt ''downloadUrl'' = None
         \<or> (\<exists>u. member opt ''downloadUrl'' = Some u \<and> \<not> py_truthy u)"
  shows "official_url e list_url doc doc_id
           = py_get doc ''downloadUrl'' (JStr (list_url @ ''/'' @ py_str (py_repr e) doc_id))"
proof -
  from assms(1,2) have bag: "py_get doc ''downloadOptionBag'' (JArr []) = Inr (JArr opts)"
    by (auto simp: py_get_def member_def)
  from assms(4,5) have "\<exists>u. scan_options opts = Inr u \<and> \<not> py_truthy u"
    unfolding scan_options_find [OF assms(3)] by (auto simp: py_truthy_def)
  then show ?thesis
    by (auto simp: official_url_def bag py_iter_def)
qed

text \<open>
  The final count of a run that finishes is at most the number of download commands of
  the run that returned 0: the summary counts downloaded files only.
\<close>

lemma ok_download_cmd: "ok_download (Curl (download_cmd filepath use_key api_key u) (Some 0))"
  by (simp add: ok_download_def download_cmd_def)

lemma fetch_doc_requests:
  assumes "fetch_doc e api_key temp_header_file list_url doc doc_id filepath s = Inr s'"
  shows "\<exists>es. requests s' = requests s @ es"
proof -
  from assms obtain url where url: "official_url e list_url doc doc_id = Inr url"
    by (auto simp: fetch_doc_def split: sum.splits)
  with assms obtain r s1 where
    probe: "get_redirect_url e url api_key temp_header_file s = Inr (r, s1)"
    by (auto simp: fetch_doc_def split: sum.splits)
  have p: "\<exists>es. requests s1 = requests s @ es"
    using get_redirect_url_effect(4,5) [OF probe] by (cases url) auto
  have d: "\<exists>es. requests (snd (download_final e v filepath use k s1)) = requests s1 @ es"
    for v use k
    by (cases v) (auto simp: download_final_def Let_def split: option.splits)
  obtain ok s2 where dl: "(if redirect_found r then download_final e (JStr (the r)) filepath False [] s1
        else download_final e url filepath True api_key s1) = (ok, s2)"
    by (cases "if redirect_found r then download_final e (JStr (the r)) filepath False [] s1
        else download_final e url filepath True api_key s1")
  then have "\<exists>es. requests s2 = requests s1 @ es"
    using d [of "JStr (the r)" False "[]"] d [of url True api_key]
    by (auto split: if_splits)
  moreover from assms have "requests s' = requests s2"
    unfolding fetch_doc_unfold [OF url probe] dl count_if_valid_Inr by (auto split: if_splits)
  ultimately show ?thesis using p by auto
qed

lemma process_doc_bound:
  assumes "process_doc e api_key temp_header_file app_num app_folder list_url doc s = Inr s'"
  shows "success_count s' + length (filter ok_download (requests s))
           \<le> success_count s + length (filter ok_download (requests s'))"
proof -
  from assms obtain doc_id filepath where
    t: "doc_target e app_num app_folder doc = Inr (doc_id, filepath)"
    by (cases "doc_target e app_num app_folder doc") (auto simp: process_doc_def)
  show ?thesis
  proof (cases "verify_pdf (disk s) filepath = Inr True")
    case True
    then have "os_path_exists (disk s) filepath"
      by (auto simp: verify_pdf_def split: if_splits)
    with True assms t have "s' = s" by (simp add: process_doc_def)
    then show ?thesis by simp
  next
    case False
    with verify_pdf_bool [of "disk s" filepath]
    have v: "verify_pdf (disk s) filepath = Inr False" by simp
    define s0 where "s0 = (if os_path_exists (disk s) filepath
                           then s\<lparr>disk := remove_quietly (disk s) filepath\<rparr> else s)"
    from assms t v
    have f: "fetch_doc e api_key temp_header_file list_url doc doc_id filepath s0 = Inr s'"
      by (simp add: process_doc_def s0_def split: if_splits)
    have s0: "success_count s0 = success_count s" "requests s0 = requests s"
      by (simp_all add: s0_def)
    from fetch_doc_requests [OF f] obtain es where es: "requests s' = requests s @ es"
      by (auto simp: s0)
    show ?thesis
    proof (cases "new_valid_download s0 s' filepath")
      case n: False
      with fetch_doc_count [OF f] show ?thesis by (simp add: s0 es)
    next
      case True
      then have "es \<noteq> []" and "ok_download (last (requests s'))"
        by (auto simp: new_valid_download_def s0 es ok_download_cmd)
      then have "ok_download (last es)" by (simp add: es)
      with \<open>es \<noteq> []\<close> have "last es \<in> set (filter ok_download es)" by simp
      then have "1 \<le> length (filter ok_download es)"
        by (cases "filter ok_download es") auto
      with fetch_doc_count [OF f] True show ?thesis by (simp add: s0 es)
    qed
  qed
qed

lemma process_docs_bound:
  "process_docs e api_key temp_header_file app_num app_folder list_url ds s = Inr s' \<Longrightarrow>
   success_count s' + length (filter ok_download (requests s))
     \<le> success_count s + length (filter ok_download (requests s'))"
proof (induction ds arbitrary: s)
  case Nil
  then show ?case by simp
next
  case (Cons doc ds)
  show ?case
  proof (cases "stop_flag e (polls s)")
    case True
    with Cons.prems show ?thesis by auto
  next
    case False
    let ?s = "s\<lparr>polls := polls s + 1\<rparr>"
    from False Cons.prems obtain s1 where
      p: "process_doc e api_key temp_header_file app_num app_folder list_url doc ?s = Inr s1"
      and r: "process_docs e api_key temp_header_file app_num app_folder list_url ds s1 = Inr s'"
      by (auto split: sum.splits)
    from process_doc_bound [OF p] Cons.IH [OF r] show ?thesis by simp
  qed
qed

lemma process_apps_bound:
  "process_apps e api_key root_dir temp_header_file apps s = Inr s' \<Longrightarrow>
   success_count s' + length (filter ok_download (requests s))
     \<le> success_count s + length (filter ok_download (requests s'))"
proof (induction apps arbitrary: s)
  case Nil
  then show ?case by simp
next
  case (Cons a apps)
  let ?folder = "os_path_join root_dir (''App_'' @ a)"
  show ?case
  proof (cases "stop_flag e (polls s)")
    case True
    with Cons.prems show ?thesis by auto
  next
    case False
    from False Cons.prems obtain fs1 where
      mk: "(if os_path_exists (disk s) ?folder then Inr (disk s)
            else os_makedirs (disk s) ?folder) = Inr fs1"
      by (cases "if os_path_exists (disk s) ?folder then Inr (disk s)
            else os_makedirs (disk s) ?folder") (auto simp: Let_def split: if_splits)
    let ?s2 = "s\<lparr>polls := polls s + 1, processed_count := processed_count s + 1, disk := fs1,
                  requests := requests s @ [ListRequest (list_url_of a)]\<rparr>"
    have z: "success_count ?s2 = success_count s"
      "length (filter ok_download (requests ?s2)) = length (filter ok_download (requests s))"
      by (simp_all add: ok_download_def)
    have "\<exists>s3. process_apps e api_key root_dir temp_header_file apps s3 = Inr s'
        \<and> success_count s3 + length (filter ok_download (requests ?s2))
             \<le> success_count ?s2 + length (filter ok_download (requests s3))"
    proof (cases "list_docs e (list_url_of a) api_key")
      case None
      with False mk Cons.prems
      have "process_apps e api_key root_dir temp_header_file apps ?s2 = Inr s'"
        by (cases "os_path_exists (disk s) ?folder") (simp_all add: Let_def)
      then show ?thesis by (intro exI [of _ ?s2]) simp
    next
      case (Some docs)
      show ?thesis
      proof (cases "py_truthy docs")
        case f: False
        with Some False mk Cons.prems
        have "process_apps e api_key root_dir temp_header_file apps ?s2 = Inr s'"
          by (cases "os_path_exists (disk s) ?folder") (simp_all add: Let_def)
        then show ?thesis by (intro exI [of _ ?s2]) simp
      next
        case True
        with Some False mk Cons.prems obtain ds s3 where
          "py_iter docs = Inr ds"
          and d: "process_docs e api_key temp_header_file a ?folder (list_url_of a) ds ?s2 = Inr s3"
          and r: "process_apps e api_key root_dir temp_header_file apps s3 = Inr s'"
          by (cases "os_path_exists (disk s) ?folder")
             (auto simp: Let_def split: sum.splits)
        from process_docs_bound [OF d] r show ?thesis by blast
      qed
    qed
    then obtain s3 where
      r: "process_apps e api_key root_dir temp_header_file apps s3 = Inr s'"
      and b: "success_count s3 + length (filter ok_download (requests ?s2))
             \<le> success_count ?s2 + length (filter ok_download (requests s3))"
      by blast
    from Cons.IH [OF r] b z show ?thesis by simp
  qed
qed

lemma finished_counts_downloads:
  assumes "fst (run_process e entry_key txt_list root_dir s) = Finished n"
  shows "n + length (filter ok_download (requests s))
           \<le> length (filter ok_download (requests (snd (run_process e entry_key txt_list root_dir s))))"
proof -
  let ?key = "py_strip entry_key"
  let ?temp = "os_path_join root_dir ''temp_headers_debug.txt''"
  let ?s0 = "s\<lparr>processed_count := 0, success_count := 0\<rparr>"
  let ?r = "process_apps e ?key root_dir ?temp (app_numbers (py_strip txt_list)) ?s0"
  from assms obtain s' where r: "?r = Inr s'" and n: "n = success_count s'"
    and q: "requests (snd (run_process e entry_key txt_list root_dir s)) = requests s'"
    by (auto simp: run_process_def Let_def split: if_splits sum.splits prod.splits)
  from process_apps_bound [OF r] n q show ?thesis by simp
qed

text \<open>
  The resolver returns what the pattern finds in the header file that \<open>curl\<close> has
  left, read in text mode.
\<close>

lemma get_redirect_url_header:
  assumes "\<not> os_path_exists (disk s) temp_header_file"
    and "run_curl e (probe_cmd temp_header_file api_key u) (disk s) = Some (rc, fs2)"
    and "nodes fs2 temp_header_file = Some (File bytes)"
    and "temp_header_file \<notin> unreadable fs2"
  shows "map_sum fst fst (get_redirect_url e (JStr u) api_key temp_header_file s)
           = Inr (location_of (universal_newlines (utf8_ignore bytes)))"
  using assms
  by (simp add: get_redirect_url_def Let_def os_path_exists_def open_read_text_def)

text \<open>The number in the final message is the success counter of the state the run ends in.\<close>

lemma finished_reports_counter:
  assumes "fst (run_process e entry_key txt_list root_dir s) = Finished n"
  shows "success_count (snd (run_process e entry_key txt_list root_dir s)) = n"
  using assms
  by (auto simp: run_process_def Let_def split: if_splits sum.splits prod.splits)

end
